theory Spec2Isabelle
  imports Complex_Main "HOL-Library.Word"
begin

unbundle bit_operations_syntax

section \<open>JavaScript strings\<close>

text \<open>
  A JavaScript string is a sequence of UTF-16 code units; \<open>length\<close>, \<open>substring\<close>,
  \<open>trim\<close> and the regular expressions of the routes all work on code units.
  \<open>js\<close> embeds an ASCII literal of the source.
\<close>

type_synonym code_unit = "16 word"
type_synonym jsstring = "code_unit list"

definition js :: "string \<Rightarrow> jsstring" where
  "js s = map of_char s"

text \<open>
  The code units that \<open>String.prototype.trim\<close> strips and that the class \<open>\s\<close>
  matches: WhiteSpace and LineTerminator of ECMAScript.
\<close>

definition is_space :: "code_unit \<Rightarrow> bool" where
  "is_space c \<longleftrightarrow>
     c = 0x09 \<or> c = 0x0A \<or> c = 0x0B \<or> c = 0x0C \<or> c = 0x0D \<or> c = 0x20 \<or> c = 0xA0
     \<or> c = 0x1680 \<or> (0x2000 \<le> c \<and> c \<le> 0x200A) \<or> c = 0x2028 \<or> c = 0x2029
     \<or> c = 0x202F \<or> c = 0x205F \<or> c = 0x3000 \<or> c = 0xFEFF"

definition trim :: "jsstring \<Rightarrow> jsstring" where
  "trim s = rev (dropWhile is_space (rev (dropWhile is_space s)))"

text \<open>\<open>Array.prototype.join\<close> on an array of strings.\<close>

fun join :: "jsstring \<Rightarrow> jsstring list \<Rightarrow> jsstring" where
  "join sep [] = []"
| "join sep [x] = x"
| "join sep (x # y # ys) = x @ sep @ join sep (y # ys)"

text \<open>\<open>s.replace(/\s+/g, ' ')\<close>: every maximal run of white space becomes one space.\<close>

function collapse_ws :: "jsstring \<Rightarrow> jsstring" where
  "collapse_ws [] = []"
| "collapse_ws (c # cs) =
     (if is_space c then 0x20 # collapse_ws (dropWhile is_space cs)
      else c # collapse_ws cs)"
  by pat_completeness auto
termination
  by (relation "measure length") (auto simp: length_dropWhile_le less_Suc_eq_le)

text \<open>
  \<open>s.split(/\s+/)\<close>: the pieces between the maximal runs of white space; a run at
  either end leaves an empty piece there, and the empty string gives one empty piece.
\<close>

function split_ws :: "jsstring \<Rightarrow> jsstring list" where
  "split_ws s =
     (let w = takeWhile (\<lambda>c. \<not> is_space c) s; r = dropWhile (\<lambda>c. \<not> is_space c) s
      in if r = [] then [w] else w # split_ws (dropWhile is_space r))"
  by pat_completeness auto

lemma split_ws_measure:
  "dropWhile (\<lambda>c. \<not> is_space c) s \<noteq> [] \<Longrightarrow>
   length (dropWhile is_space (dropWhile (\<lambda>c. \<not> is_space c) s)) < length s"
proof -
  assume ne: "dropWhile (\<lambda>c. \<not> is_space c) s \<noteq> []"
  then obtain c cs where r: "dropWhile (\<lambda>c. \<not> is_space c) s = c # cs"
    by (cases "dropWhile (\<lambda>c. \<not> is_space c) s") auto
  have sp: "is_space c"
    using r by (metis (mono_tags, lifting) hd_dropWhile list.sel(1) ne)
  have "length (dropWhile is_space (c # cs)) \<le> length cs"
    using sp by (simp add: length_dropWhile_le)
  moreover have "length (c # cs) \<le> length s"
    using r length_dropWhile_le [of "\<lambda>c. \<not> is_space c" s] by simp
  ultimately show ?thesis using r by simp
qed

termination split_ws
proof (relation "measure length")
  show "wf (measure length)" by simp
next
  fix s :: jsstring and w r :: jsstring
  assume "r = dropWhile (\<lambda>c. \<not> is_space c) s" and "r \<noteq> []"
  then show "(dropWhile is_space r, s) \<in> measure length"
    using split_ws_measure [of s] by simp
qed

declare split_ws.simps [simp del]

section \<open>Think-block stripping\<close>

text \<open>
  The regular expression \<open>/<think>[\s\S]*?<\/think>/gi\<close>. Under the flag \<open>i\<close> (without
  \<open>u\<close>) two code units match when their canonical forms are equal; the canonical
  form of a code unit from 128 on is never below 128, so against the ASCII letters
  of the two delimiters only the ASCII letters of either case match, which is what
  \<open>canonicalize\<close> decides.
\<close>

definition canonicalize :: "code_unit \<Rightarrow> code_unit" where
  "canonicalize c = (if 0x61 \<le> c \<and> c \<le> 0x7A then c - 0x20 else c)"

fun ci_prefix :: "jsstring \<Rightarrow> jsstring \<Rightarrow> bool" where
  "ci_prefix [] s = True"
| "ci_prefix (p # ps) [] = False"
| "ci_prefix (p # ps) (c # cs) = (canonicalize p = canonicalize c \<and> ci_prefix ps cs)"

definition think_open :: jsstring where
  "think_open = js ''<think>''"

definition think_close :: jsstring where
  "think_close = js ''</think>''"

text \<open>
  The lazy \<open>[\s\S]*?\<close> stops at the first closing delimiter: \<open>find_close s\<close> is the
  text after that delimiter, or \<open>None\<close> when \<open>s\<close> has none.
\<close>

fun find_close :: "jsstring \<Rightarrow> jsstring option" where
  "find_close [] = None"
| "find_close (c # cs) =
     (if ci_prefix think_close (c # cs) then Some (drop (length think_close) (c # cs))
      else find_close cs)"

lemma find_close_length: "find_close s = Some r \<Longrightarrow> length r < length s"
  by (induction s) (auto simp: think_close_def js_def split: if_splits)

text \<open>
  The global replace by the empty string: the matcher tries each position from the
  left; where the opening delimiter stands and a closing one follows, the match is
  dropped and the scan goes on after it; elsewhere the code unit is kept.
\<close>

function replace_think :: "jsstring \<Rightarrow> jsstring" where
  "replace_think [] = []"
| "replace_think (c # cs) =
     (if ci_prefix think_open (c # cs) then
        (case find_close (drop (length think_open) (c # cs)) of
           Some rest \<Rightarrow> replace_think rest
         | None \<Rightarrow> c # replace_think cs)
      else c # replace_think cs)"
  by pat_completeness auto
termination
  by (relation "measure length") (auto simp: think_open_def js_def dest!: find_close_length)

definition removeThinkBlocks :: "jsstring \<Rightarrow> jsstring" where
  "removeThinkBlocks text = (if text = [] then text else trim (replace_think text))"

section \<open>Data model\<close>

text \<open>
  A JavaScript number is an IEEE 754 double: a finite value, an infinity or NaN.
  \<open>Finite q\<close> stands for the double of value \<open>q\<close>; both zeros are \<open>Finite 0\<close>, since
  the sign of a zero plays no part below.
\<close>

datatype js_number = Finite rat | PosInf | NegInf | NaN

text \<open>
  Rounding of an exact sum to the nearest double, ties to the even significand.
  The doubles around a value \<open>a\<close> are the multiples of \<open>2 ^ p\<close>, where \<open>p\<close> is the least
  exponent from -1074 on with \<open>a < 2 ^ (p + 53)\<close>, at most 971; a result of
  \<open>2 ^ 1024\<close> or more is an infinity.
\<close>

definition pow2 :: "int \<Rightarrow> rat" where
  "pow2 p = (if 0 \<le> p then 2 ^ nat p else 1 / 2 ^ nat (- p))"

function ulp_exp :: "rat \<Rightarrow> int \<Rightarrow> int" where
  "ulp_exp a p = (if 971 \<le> p then 971 else if a < pow2 (p + 53) then p else ulp_exp a (p + 1))"
  by pat_completeness auto
termination
  by (relation "measure (\<lambda>(a, p). nat (971 - p))") auto

declare ulp_exp.simps [simp del]

definition round_half_even :: "rat \<Rightarrow> int" where
  "round_half_even q =
     (let f = \<lfloor>q\<rfloor>; d = q - of_int f
      in if d < 1 / 2 then f else if 1 / 2 < d then f + 1 else if even f then f else f + 1)"

definition round_double :: "rat \<Rightarrow> js_number" where
  "round_double q =
     (if q = 0 then Finite 0
      else
        (let p = ulp_exp \<bar>q\<bar> (- 1074); m = round_half_even (q / pow2 p)
         in if p = 971 \<and> 2 ^ 53 \<le> \<bar>m\<bar> then (if 0 < q then PosInf else NegInf)
            else Finite (of_int m * pow2 p)))"

text \<open>\<open>x + 1\<close> on numbers.\<close>

fun number_plus_one :: "js_number \<Rightarrow> js_number" where
  "number_plus_one (Finite q) = round_double (q + 1)"
| "number_plus_one PosInf = PosInf"
| "number_plus_one NegInf = NegInf"
| "number_plus_one NaN = NaN"

text \<open>
  A value as the code reads it from a stored document: a primitive value, or an
  object (an array, a map, a timestamp and so on), which is given here by the
  primitive value that JavaScript converts it to when it is an operand of \<open>+\<close>.
\<close>

datatype js_prim = PNull | PBool bool | PNum js_number | PStr jsstring

datatype js_value = Prim js_prim | Obj js_prim

fun prim_truthy :: "js_prim \<Rightarrow> bool" where
  "prim_truthy PNull = False"
| "prim_truthy (PBool b) = b"
| "prim_truthy (PNum (Finite q)) = (q \<noteq> 0)"
| "prim_truthy (PNum NaN) = False"
| "prim_truthy (PNum PosInf) = True"
| "prim_truthy (PNum NegInf) = True"
| "prim_truthy (PStr s) = (s \<noteq> [])"

fun truthy :: "js_value \<Rightarrow> bool" where
  "truthy (Prim p) = prim_truthy p"
| "truthy (Obj p) = True"

fun to_primitive :: "js_value \<Rightarrow> js_prim" where
  "to_primitive (Prim p) = p"
| "to_primitive (Obj p) = p"

text \<open>
  \<open>p + 1\<close> on a primitive value: a string is concatenated with \<open>1\<close>, every other
  value is converted to a number first.
\<close>

fun prim_plus_one :: "js_prim \<Rightarrow> js_prim" where
  "prim_plus_one (PStr s) = PStr (s @ js ''1'')"
| "prim_plus_one (PNum x) = PNum (number_plus_one x)"
| "prim_plus_one (PBool b) = PNum (number_plus_one (Finite (if b then 1 else 0)))"
| "prim_plus_one PNull = PNum (number_plus_one (Finite 0))"

text \<open>JSON values of request bodies and stored documents.\<close>

datatype json =
  JNull
| JBool bool
| JNum js_number
| JStr jsstring
| JArr "json list"
| JObj "(jsstring \<times> json) list"

text \<open>
  What a caught exception carries: \<open>message\<close>; for a failed page fetch also
  \<open>code\<close> and, when the site answered, \<open>response.status\<close> and
  \<open>response.statusText\<close>.
\<close>

record js_error =
  err_message :: "jsstring option"
  err_code :: "jsstring option"
  err_response :: "(nat \<times> jsstring) option"

text \<open>The object \<open>extractMainContent\<close> returns.\<close>

record extracted =
  ex_content :: jsstring
  ex_title :: jsstring
  ex_url :: jsstring

text \<open>The \<open>metadata\<close> object of the last frame of the web summary.\<close>

record metadata =
  md_url :: jsstring
  md_title :: jsstring
  md_originalLength :: nat
  md_summaryType :: jsstring
  md_truncated :: bool
  md_extractedAt :: jsstring

text \<open>The frames written to an event stream, each as \<open>data: {...}\n\n\<close>.\<close>

datatype frame =
  StatusFrame jsstring jsstring "jsstring option"
| DeltaFrame jsstring
| FinishedFrame jsstring "metadata option"
| ErrorFrame jsstring "jsstring option"

text \<open>One segment of a caption track, and the JSON answer of the video summary.\<close>

record segment =
  seg_text :: jsstring
  seg_offset :: real
  seg_duration :: real

record video_summary =
  vs_videoId :: jsstring
  vs_summary :: jsstring
  vs_summaryType :: jsstring
  vs_transcriptLength :: nat
  vs_transcriptWordCount :: nat
  vs_videoDuration :: real
  vs_fullTranscript :: jsstring

text \<open>
  A stored note: the fields the update route reads or writes, and every other
  stored field (\<open>createdAt\<close> and whatever else the document holds) in \<open>nd_other\<close>.
  A field that the document lacks is \<open>None\<close>.
\<close>

record note_doc =
  nd_userId :: "jsstring option"
  nd_version :: "js_value option"
  nd_updatedAt :: "jsstring option"
  nd_title :: "json option"
  nd_content :: "json option"
  nd_tags :: "json option"
  nd_links :: "json option"
  nd_category :: "json option"
  nd_other :: "jsstring \<rightharpoonup> json"

section \<open>The HTTP response object\<close>

datatype body =
  ErrorBody jsstring "jsstring option"
| ErrorDetailsBody jsstring jsstring "jsstring option"
| SummaryBody jsstring nat jsstring bool
| ExtractBody extracted nat jsstring
| VideoBody video_summary
| NoteBody jsstring note_doc

text \<open>
  The state of \<open>res\<close>: the status code (200 until \<open>res.status\<close> sets it), whether
  the headers have gone out, the frames written so far, the body sent by
  \<open>res.json\<close>, and whether the response has ended. \<open>res.setHeader\<close> only stores a
  header, so it is no step here; the first \<open>res.write\<close> sends the headers with
  the status code of that moment.
\<close>

record response =
  statusCode :: nat
  headersSent :: bool
  written :: "frame list"
  jsonBody :: "body option"
  ended :: bool

definition res_init :: response where
  "res_init = \<lparr>statusCode = 200, headersSent = False, written = [], jsonBody = None,
     ended = False\<rparr>"

definition res_write :: "frame \<Rightarrow> response \<Rightarrow> response" where
  "res_write f r = r\<lparr>headersSent := True, written := written r @ [f]\<rparr>"

definition res_end :: "response \<Rightarrow> response" where
  "res_end r = r\<lparr>headersSent := True, ended := True\<rparr>"

definition res_json :: "body \<Rightarrow> response \<Rightarrow> response" where
  "res_json b r = r\<lparr>headersSent := True, jsonBody := Some b, ended := True\<rparr>"

definition res_status :: "nat \<Rightarrow> response \<Rightarrow> response" where
  "res_status code r = r\<lparr>statusCode := code\<rparr>"

text \<open>\<open>error.message || dflt\<close>: a missing or empty message gives the default.\<close>

definition message_or :: "js_error \<Rightarrow> jsstring \<Rightarrow> jsstring" where
  "message_or e dflt =
     (case err_message e of None \<Rightarrow> dflt | Some m \<Rightarrow> if m = [] then dflt else m)"

section \<open>The chat route\<close>

text \<open>
  A chunk of the completion stream, as far as the loop reads it:
  \<open>chunk.choices[0]?.delta?.content\<close>.
\<close>

datatype chunk_delta = ChunkDelta "jsstring option"
datatype choice = Choice "chunk_delta option"
datatype chunk = Chunk "choice list"

fun chunk_content :: "chunk \<Rightarrow> jsstring option" where
  "chunk_content (Chunk []) = None"
| "chunk_content (Chunk (Choice None # _)) = None"
| "chunk_content (Chunk (Choice (Some (ChunkDelta c)) # _)) = c"

text \<open>
  What the streaming completion call does: it throws at once, or it yields a
  finite sequence of chunks and then either ends or throws.
\<close>

datatype upstream =
  CreateFails js_error
| Completion "chunk list" "js_error option"

text \<open>
  The loop \<open>for await (const chunk of completion)\<close>, on the pair of \<open>fullResponse\<close>
  and \<open>res\<close>: a chunk whose content is missing or empty is skipped.
\<close>

fun relay :: "chunk list \<Rightarrow> jsstring \<times> response \<Rightarrow> jsstring \<times> response" where
  "relay [] (fullResponse, res) = (fullResponse, res)"
| "relay (ch # chs) (fullResponse, res) =
     (case chunk_content ch of
        None \<Rightarrow> relay chs (fullResponse, res)
      | Some c \<Rightarrow>
          if c = [] then relay chs (fullResponse, res)
          else relay chs (fullResponse @ c, res_write (DeltaFrame c) res))"

text \<open>The \<open>catch\<close> block of the chat route.\<close>

definition chat_catch :: "js_error \<Rightarrow> response \<Rightarrow> response" where
  "chat_catch e res =
     (if \<not> headersSent res then
        res_json (ErrorBody (js ''AI service error'')
                    (Some (message_or e (js ''Failed to generate response''))))
          (res_status 500 res)
      else res_end (res_write (ErrorFrame (js ''AI service error'') (err_message e)) res))"

text \<open>
  \<open>POST /chat\<close>. \<open>prompt\<close> is the field of the request body (\<open>None\<close> when it is
  missing); \<open>create\<close> stands for the completion service, called with the prompt as
  the message (the sampling parameters only go to that service).
\<close>

definition chat_handler :: "jsstring option \<Rightarrow> (jsstring \<Rightarrow> upstream) \<Rightarrow> response" where
  "chat_handler prompt create =
     (case prompt of
        None \<Rightarrow>
          res_json (ErrorBody (js ''Prompt is required'')
                      (Some (js ''Please provide a prompt in the request body'')))
            (res_status 400 res_init)
      | Some p \<Rightarrow>
          if p = [] then
            res_json (ErrorBody (js ''Prompt is required'')
                        (Some (js ''Please provide a prompt in the request body'')))
              (res_status 400 res_init)
          else
            (case create p of
               CreateFails e \<Rightarrow> chat_catch e res_init
             | Completion chs fin \<Rightarrow>
                 (case relay chs ([], res_init) of
                    (fullResponse, res) \<Rightarrow>
                      (case fin of
                         Some e \<Rightarrow> chat_catch e res
                       | None \<Rightarrow>
                           res_end (res_write
                             (FinishedFrame (removeThinkBlocks fullResponse) None) res)))))"

section \<open>The note generation route\<close>

definition note_system_prompt :: "jsstring \<Rightarrow> jsstring" where
  "note_system_prompt action =
     (if action = js ''expand'' then
        js ''You are a helpful assistant that expands and elaborates on ideas for note-taking. Provide detailed, well-structured content that builds upon the given prompt.''
      else if action = js ''summarize'' then
        js ''You are a helpful assistant that creates concise summaries for note-taking. Provide clear, bullet-pointed summaries of the given content.''
      else
        js ''You are a helpful assistant for note-taking. Generate well-organized, informative notes based on the given prompt.'')"

definition note_full_prompt :: "jsstring \<Rightarrow> jsstring \<Rightarrow> jsstring \<Rightarrow> jsstring" where
  "note_full_prompt systemPrompt context prompt =
     (if context \<noteq> [] then
        systemPrompt @ js ''\<newline>\<newline>Context: '' @ context @ js ''\<newline>\<newline>Task: '' @ prompt
      else systemPrompt @ js ''\<newline>\<newline>Task: '' @ prompt)"

definition note_catch :: "js_error \<Rightarrow> response \<Rightarrow> response" where
  "note_catch e res =
     (if \<not> headersSent res then
        res_json (ErrorBody (js ''Note generation failed'')
                    (Some (message_or e (js ''Failed to generate note content''))))
          (res_status 500 res)
      else res_end (res_write (ErrorFrame (js ''Note generation failed'') (err_message e)) res))"

text \<open>
  \<open>POST /generate-note\<close>. The fields \<open>context\<close> and \<open>action\<close> of the body default to
  the empty string and to \<open>generate\<close>.
\<close>

definition generate_note_handler ::
  "jsstring option \<Rightarrow> jsstring option \<Rightarrow> jsstring option \<Rightarrow> (jsstring \<Rightarrow> upstream) \<Rightarrow> response" where
  "generate_note_handler prompt context_field action_field create =
     (let context = (case context_field of None \<Rightarrow> [] | Some c \<Rightarrow> c);
          action = (case action_field of None \<Rightarrow> js ''generate'' | Some a \<Rightarrow> a);
          missing = res_json (ErrorBody (js ''Prompt is required'')
                                (Some (js ''Please provide a prompt for note generation'')))
                      (res_status 400 res_init)
      in case prompt of
           None \<Rightarrow> missing
         | Some p \<Rightarrow>
             if p = [] then missing
             else
               (case create (note_full_prompt (note_system_prompt action) context p) of
                  CreateFails e \<Rightarrow> note_catch e res_init
                | Completion chs fin \<Rightarrow>
                    (case relay chs ([], res_init) of
                       (fullResponse, res) \<Rightarrow>
                         (case fin of
                            Some e \<Rightarrow> note_catch e res
                          | None \<Rightarrow>
                              res_end (res_write
                                (FinishedFrame (removeThinkBlocks fullResponse) None) res)))))"

section \<open>The text summary route\<close>

text \<open>
  \<open>parseInt(process.env.MAX_CONTENT_LENGTH) || 50000\<close>, on the result of \<open>parseInt\<close>
  (\<open>None\<close> for \<open>NaN\<close>, which an unset variable gives): \<open>NaN\<close> and 0 give the default.
\<close>

definition maxContentLength :: "int option \<Rightarrow> int" where
  "maxContentLength parsed =
     (case parsed of None \<Rightarrow> 50000 | Some n \<Rightarrow> if n = 0 then 50000 else n)"

text \<open>\<open>s.substring(0, n)\<close>: a negative \<open>n\<close> counts as 0, one beyond the end as the end.\<close>

definition substring0 :: "jsstring \<Rightarrow> int \<Rightarrow> jsstring" where
  "substring0 s n = take (nat n) s"

definition truncate_content :: "jsstring \<Rightarrow> int \<Rightarrow> jsstring" where
  "truncate_content content m =
     (if int (length content) > m then substring0 content m @ js ''...[content truncated]''
      else content)"

definition promptTemplate :: "jsstring \<Rightarrow> jsstring" where
  "promptTemplate summary_type =
     (if summary_type = js ''bullet_points'' then
        js ''Summarize the following content in clear bullet points:\<newline>\<newline>''
      else if summary_type = js ''brief'' then
        js ''Provide a brief, concise summary (2-3 sentences) of the following content:\<newline>\<newline>''
      else js ''Provide a comprehensive summary of the following content:\<newline>\<newline>'')"

text \<open>
  \<open>POST /summarize\<close> of the AI routes. \<open>llm\<close> stands for the completion service
  (it throws, or answers with a message content that may be missing). The result
  is the list of prompts sent to the service, in order, and the response.
\<close>

definition summarize_handler ::
  "jsstring option \<Rightarrow> jsstring option \<Rightarrow> int option \<Rightarrow> (jsstring \<Rightarrow> js_error + jsstring option)
     \<Rightarrow> jsstring list \<times> response" where
  "summarize_handler content_field summary_type_field env_max llm =
     (let summary_type = (case summary_type_field of None \<Rightarrow> js ''general'' | Some t \<Rightarrow> t);
          missing = ([], res_json (ErrorBody (js ''Content is required'')
                                     (Some (js ''Please provide content to summarize'')))
                           (res_status 400 res_init))
      in case content_field of
           None \<Rightarrow> missing
         | Some content \<Rightarrow>
             if content = [] then missing
             else
               (let m = maxContentLength env_max;
                    truncatedContent = truncate_content content m;
                    fullPrompt = promptTemplate summary_type @ truncatedContent
                in case llm fullPrompt of
                     Inl e \<Rightarrow>
                       ([fullPrompt],
                        res_json (ErrorBody (js ''Summarization failed'')
                                    (Some (message_or e (js ''Failed to summarize content''))))
                          (res_status 500 res_init))
                   | Inr answer \<Rightarrow>
                       ([fullPrompt],
                        res_json (SummaryBody
                                    (removeThinkBlocks (case answer of None \<Rightarrow> [] | Some a \<Rightarrow> a))
                                    (length content) summary_type (int (length content) > m))
                          res_init)))"

section \<open>The content check in front of the routes\<close>

text \<open>
  \<open>JSON.stringify\<close> of a string: the quotation mark, the backslash and the control
  characters are escaped, a surrogate without its partner is written as \<open>\uXXXX\<close>
  with lower-case digits, every other code unit stands for itself.
\<close>

definition hex_digit :: "code_unit \<Rightarrow> code_unit" where
  "hex_digit d = (if d < 10 then 0x30 + d else 0x57 + d)"

definition unicode_escape :: "code_unit \<Rightarrow> jsstring" where
  "unicode_escape c =
     [0x5C, 0x75, hex_digit (drop_bit 12 c), hex_digit (drop_bit 8 c AND 0xF),
      hex_digit (drop_bit 4 c AND 0xF), hex_digit (c AND 0xF)]"

definition escape_unit :: "code_unit \<Rightarrow> jsstring" where
  "escape_unit c =
     (if c = 0x08 then [0x5C, 0x62]
      else if c = 0x09 then [0x5C, 0x74]
      else if c = 0x0A then [0x5C, 0x6E]
      else if c = 0x0C then [0x5C, 0x66]
      else if c = 0x0D then [0x5C, 0x72]
      else if c = 0x22 then [0x5C, 0x22]
      else if c = 0x5C then [0x5C, 0x5C]
      else if c < 0x20 then unicode_escape c
      else [c])"

definition is_high :: "code_unit \<Rightarrow> bool" where
  "is_high c \<longleftrightarrow> 0xD800 \<le> c \<and> c \<le> 0xDBFF"

definition is_low :: "code_unit \<Rightarrow> bool" where
  "is_low c \<longleftrightarrow> 0xDC00 \<le> c \<and> c \<le> 0xDFFF"

fun json_escape :: "jsstring \<Rightarrow> jsstring" where
  "json_escape [] = []"
| "json_escape [c] = (if is_high c \<or> is_low c then unicode_escape c else escape_unit c)"
| "json_escape (c # d # ds) =
     (if is_high c \<and> is_low d then c # d # json_escape ds
      else if is_high c \<or> is_low c then unicode_escape c @ json_escape (d # ds)
      else escape_unit c @ json_escape (d # ds))"






text \<open>
  \<open>pattern.test(text)\<close> for a pattern that is a literal text under the flag \<open>i\<close>:
  the text holds the pattern somewhere, the ASCII letters in either case.
\<close>

fun regex_test_ci :: "jsstring \<Rightarrow> jsstring \<Rightarrow> bool" where
  "regex_test_ci p [] = ci_prefix p []"
| "regex_test_ci p (c # cs) = (ci_prefix p (c # cs) \<or> regex_test_ci p cs)"





section \<open>Video identifiers\<close>

text \<open>
  The first pattern,
  \<open>/(?:youtube\.com\/watch\?v=|youtu\.be\/|youtube\.com\/embed\/)([^&\n?#]+)/\<close>,
  is searched from the left: at each position the three alternatives are tried in
  order, and the group takes the longest run of code units other than
  \<open>&\<close>, newline, \<open>?\<close> and \<open>#\<close>, which must not be empty.
\<close>

definition id_char :: "code_unit \<Rightarrow> bool" where
  "id_char c \<longleftrightarrow> c \<noteq> 0x26 \<and> c \<noteq> 0x0A \<and> c \<noteq> 0x3F \<and> c \<noteq> 0x23"

definition url_prefixes :: "jsstring list" where
  "url_prefixes = [js ''youtube.com/watch?v='', js ''youtu.be/'', js ''youtube.com/embed/'']"

fun match_here :: "jsstring list \<Rightarrow> jsstring \<Rightarrow> jsstring option" where
  "match_here [] s = None"
| "match_here (p # ps) s =
     (if take (length p) s = p \<and> takeWhile id_char (drop (length p) s) \<noteq> []
      then Some (takeWhile id_char (drop (length p) s))
      else match_here ps s)"

fun match_url :: "jsstring \<Rightarrow> jsstring option" where
  "match_url [] = None"
| "match_url (c # cs) =
     (case match_here url_prefixes (c # cs) of
        Some v \<Rightarrow> Some v
      | None \<Rightarrow> match_url cs)"

text \<open>The second pattern, \<open>/^([a-zA-Z0-9_-]{11})$/\<close>: the whole string.\<close>

definition id_word :: "code_unit \<Rightarrow> bool" where
  "id_word c \<longleftrightarrow>
     (0x61 \<le> c \<and> c \<le> 0x7A) \<or> (0x41 \<le> c \<and> c \<le> 0x5A) \<or> (0x30 \<le> c \<and> c \<le> 0x39)
     \<or> c = 0x5F \<or> c = 0x2D"

definition match_direct :: "jsstring \<Rightarrow> jsstring option" where
  "match_direct s = (if length s = 11 \<and> list_all id_word s then Some s else None)"

definition patterns :: "(jsstring \<Rightarrow> jsstring option) list" where
  "patterns = [match_url, match_direct]"

datatype video_error = InvalidYouTubeUrlFormat

fun first_match :: "(jsstring \<Rightarrow> jsstring option) list \<Rightarrow> jsstring \<Rightarrow> video_error + jsstring" where
  "first_match [] url = Inl InvalidYouTubeUrlFormat"
| "first_match (pattern # rest) url =
     (case pattern url of Some v \<Rightarrow> Inr v | None \<Rightarrow> first_match rest url)"

definition extractVideoId :: "jsstring \<Rightarrow> video_error + jsstring" where
  "extractVideoId url = first_match patterns url"

section \<open>Main-content extraction\<close>

text \<open>
  The HTML parser is a library. \<open>page\<close> is what its queries answer on the parsed
  document once the unwanted elements are removed: for a selector the number of
  elements it matches and their text, the text of each paragraph element, the text
  of the body and the text of the title element.
\<close>

record page =
  pg_count :: "string \<Rightarrow> nat"
  pg_text :: "string \<Rightarrow> jsstring"
  pg_paragraphs :: "jsstring list"
  pg_body :: jsstring
  pg_title :: jsstring

definition mainSelectors :: "string list" where
  \<open>mainSelectors =
     [''main'', ''[role="main"]'', ''.main-content'', ''.content'', ''.post-content'',
      ''.article-content'', ''.entry-content'', ''article'', ''.article-body'']\<close>

text \<open>The loop over the selectors, on the variable \<open>content\<close>.\<close>

fun pick_content :: "page \<Rightarrow> string list \<Rightarrow> jsstring \<Rightarrow> jsstring" where
  "pick_content pg [] content = content"
| "pick_content pg (selector # rest) content =
     (if pg_count pg selector > 0 \<and> length (trim (pg_text pg selector)) > length content
      then pick_content pg rest (trim (pg_text pg selector))
      else pick_content pg rest content)"

definition extractMainContent :: "(jsstring \<Rightarrow> page) \<Rightarrow> jsstring \<Rightarrow> jsstring \<Rightarrow> extracted" where
  "extractMainContent load html url =
     (let pg = load html;
          content1 = pick_content pg mainSelectors [];
          content2 = (if content1 = [] \<or> length content1 < 100
                      then join (js ''\<newline>\<newline>'') (map trim (pg_paragraphs pg))
                      else content1);
          content3 = (if content2 = [] \<or> length content2 < 100
                      then trim (pg_body pg)
                      else content2);
          content4 = trim (collapse_ws content3);
          title = trim (pg_title pg)
      in \<lparr>ex_content = content4, ex_title = (if title = [] then url else title),
          ex_url = url\<rparr>)"

text \<open>A number in a template string, for the status codes.\<close>

fun decimal :: "nat \<Rightarrow> jsstring" where
  "decimal n =
     (if n < 10 then [of_nat (48 + n)] else decimal (n div 10) @ [of_nat (48 + n mod 10)])"

declare decimal.simps [simp del]

text \<open>The branches of the \<open>catch\<close> blocks that answer with a status code.\<close>

definition fetch_failure :: "jsstring \<Rightarrow> jsstring \<Rightarrow> js_error \<Rightarrow> response \<Rightarrow> response" where
  "fetch_failure label dflt e res =
     (if err_code e = Some (js ''ECONNABORTED'') then
        res_json (ErrorBody (js ''Request timeout'')
                    (Some (js ''The website took too long to respond'')))
          (res_status 408 res)
      else
        (case err_response e of
           Some (status, statusText) \<Rightarrow>
             res_json (ErrorBody (js ''Failed to fetch content'')
                         (Some (js ''HTTP '' @ decimal status @ js '': '' @ statusText)))
               (res_status (if status = 0 then 500 else status) res)
         | None \<Rightarrow>
             res_json (ErrorBody label (Some (message_or e dflt))) (res_status 500 res)))"

text \<open>
  \<open>POST /extract\<close>. \<open>valid\<close> stands for \<open>isValidUrl\<close> (the platform's URL parser),
  \<open>fetch\<close> for the page download, \<open>now\<close> for the clock.
\<close>

definition extract_handler ::
  "jsstring option \<Rightarrow> (jsstring \<Rightarrow> bool) \<Rightarrow> (jsstring \<Rightarrow> js_error + jsstring)
     \<Rightarrow> (jsstring \<Rightarrow> page) \<Rightarrow> jsstring \<Rightarrow> response" where
  "extract_handler url_field valid fetch load now =
     (let missing = res_json (ErrorBody (js ''URL is required'')
                                (Some (js ''Please provide a URL to extract content from'')))
                      (res_status 400 res_init)
      in case url_field of
           None \<Rightarrow> missing
         | Some url \<Rightarrow>
             if url = [] then missing
             else if \<not> valid url then
               res_json (ErrorBody (js ''Invalid URL'')
                           (Some (js ''Please provide a valid HTTP/HTTPS URL'')))
                 (res_status 400 res_init)
             else
               (case fetch url of
                  Inl e \<Rightarrow>
                    fetch_failure (js ''Content extraction failed'')
                      (js ''Unable to extract content from the URL'') e res_init
                | Inr html \<Rightarrow>
                    (let ex = extractMainContent load html url
                     in if ex_content ex = [] \<or> length (ex_content ex) < 50 then
                          res_json (ErrorBody (js ''No content found'')
                             (Some (js ''Unable to extract meaningful content from the provided URL'')))
                            (res_status 400 res_init)
                        else res_json (ExtractBody ex (length (ex_content ex)) now) res_init)))"

section \<open>The web summary route\<close>

definition web_prompt_head :: "jsstring \<Rightarrow> jsstring" where
  "web_prompt_head summary_type =
     (if summary_type = js ''bullet_points'' then
        js ''Summarize the following web content in clear bullet points. Include the main topics, key insights, and important details:''
      else if summary_type = js ''brief'' then
        js ''Provide a brief, concise summary (2-3 sentences) of the following web content:''
      else if summary_type = js ''detailed'' then
        js ''Provide a comprehensive, detailed summary of the following web content. Include main topics, key points, important details, and any conclusions:''
      else js ''Summarize the following web content in a clear, organized manner:'')"

definition web_prompt_template :: "jsstring \<Rightarrow> jsstring \<Rightarrow> jsstring \<Rightarrow> jsstring" where
  "web_prompt_template summary_type title url =
     web_prompt_head summary_type @ js ''\<newline>\<newline>Title: '' @ title @ js ''\<newline>URL: '' @ url
       @ js ''\<newline>\<newline>Content:\<newline>''"

definition web_catch :: "js_error \<Rightarrow> response \<Rightarrow> response" where
  "web_catch e res =
     (if \<not> headersSent res then
        fetch_failure (js ''Web summarization failed'') (js ''Failed to summarize web content'')
          e res
      else res_end (res_write (ErrorFrame (js ''Web summarization failed'') (err_message e)) res))"

text \<open>
  \<open>POST /summarize\<close> of the web routes: the status frame is written before the
  page is fetched.
\<close>

definition web_summarize_handler ::
  "jsstring option \<Rightarrow> jsstring option \<Rightarrow> (jsstring \<Rightarrow> bool) \<Rightarrow> (jsstring \<Rightarrow> js_error + jsstring)
     \<Rightarrow> (jsstring \<Rightarrow> page) \<Rightarrow> int option \<Rightarrow> jsstring \<Rightarrow> (jsstring \<Rightarrow> upstream) \<Rightarrow> response" where
  "web_summarize_handler url_field summary_type_field valid fetch load env_max now create =
     (let summary_type = (case summary_type_field of None \<Rightarrow> js ''general'' | Some t \<Rightarrow> t);
          missing = res_json (ErrorBody (js ''URL is required'')
                                (Some (js ''Please provide a URL to summarize'')))
                      (res_status 400 res_init)
      in case url_field of
           None \<Rightarrow> missing
         | Some url \<Rightarrow>
             if url = [] then missing
             else if \<not> valid url then
               res_json (ErrorBody (js ''Invalid URL'')
                           (Some (js ''Please provide a valid HTTP/HTTPS URL'')))
                 (res_status 400 res_init)
             else
               (let res1 = res_write (StatusFrame (js ''extracting'')
                                        (js ''Extracting content from URL...'') None) res_init
                in case fetch url of
                     Inl e \<Rightarrow> web_catch e res1
                   | Inr html \<Rightarrow>
                       (let ex = extractMainContent load html url
                        in if ex_content ex = [] \<or> length (ex_content ex) < 50 then
                             res_end (res_write (ErrorFrame (js ''No content found'')
                               (Some (js ''Unable to extract meaningful content from URL''))) res1)
                           else
                             (let res2 = res_write (StatusFrame (js ''summarizing'')
                                           (js ''Generating AI summary...'') (Some (ex_title ex))) res1;
                                  m = maxContentLength env_max;
                                  content = truncate_content (ex_content ex) m;
                                  fullPrompt = web_prompt_template summary_type (ex_title ex) url
                                                 @ content
                              in case create fullPrompt of
                                   CreateFails e \<Rightarrow> web_catch e res2
                                 | Completion chs fin \<Rightarrow>
                                     (case relay chs ([], res2) of
                                        (fullResponse, res3) \<Rightarrow>
                                          (case fin of
                                             Some e \<Rightarrow> web_catch e res3
                                           | None \<Rightarrow>
                                               res_end (res_write
                                                 (FinishedFrame (removeThinkBlocks fullResponse)
                                                   (Some \<lparr>md_url = ex_url ex, md_title = ex_title ex,
                                                      md_originalLength = length (ex_content ex),
                                                      md_summaryType = summary_type,
                                                      md_truncated = (int (length (ex_content ex)) > m),
                                                      md_extractedAt = now\<rparr>)) res3)))))))"

section \<open>The video summary route\<close>

definition video_prompts :: "jsstring \<Rightarrow> jsstring \<Rightarrow> jsstring \<times> jsstring" where
  "video_prompts summaryType fullTranscript =
     (if summaryType = js ''detailed'' then
        (js ''You are a helpful assistant that creates detailed summaries of video transcripts. Break down the content into key sections with bullet points.'',
         js ''Create a detailed summary of this YouTube video transcript. Include:\<newline>1. Main topic/title\<newline>2. Key points covered (bullet points)\<newline>3. Important details or examples\<newline>4. Conclusion\<newline>\<newline>Transcript:\<newline>''
           @ fullTranscript)
      else if summaryType = js ''bullet'' then
        (js ''You are a helpful assistant that creates concise bullet-point summaries.'',
         js ''Summarize this YouTube video transcript as bullet points (5-8 points maximum):\<newline>\<newline>''
           @ fullTranscript)
      else
        (js ''You are a helpful assistant that creates very concise summaries. Keep summaries to 2-3 sentences maximum.'',
         js ''Summarize this YouTube video transcript in 2-3 sentences:\<newline>\<newline>''
           @ fullTranscript))"

text \<open>\<open>transcriptData[transcriptData.length - 1]?.offset || 0\<close>.\<close>

definition last_offset :: "segment list \<Rightarrow> real" where
  "last_offset transcriptData = (if transcriptData = [] then 0 else seg_offset (last transcriptData))"

text \<open>
  \<open>fullTranscript.substring(0, 1000) + (fullTranscript.length > 1000 ? '...' : '')\<close>,
  the field \<open>fullTranscript\<close> of the answer.
\<close>

definition transcript_preview :: "jsstring \<Rightarrow> jsstring" where
  "transcript_preview fullTranscript =
     substring0 fullTranscript 1000 @ (if length fullTranscript > 1000 then js ''...'' else [])"

text \<open>
  \<open>POST /summarize\<close> of the video routes. \<open>fetchTranscript\<close> stands for the caption
  service, \<open>llm\<close> for the completion service, called with the system and the user
  prompt.
\<close>

definition video_summarize_handler ::
  "jsstring option \<Rightarrow> jsstring option \<Rightarrow> (jsstring \<Rightarrow> js_error + segment list)
     \<Rightarrow> (jsstring \<times> jsstring \<Rightarrow> js_error + jsstring option) \<Rightarrow> response" where
  "video_summarize_handler videoUrl_field summaryType_field fetchTranscript llm =
     (let summaryType = (case summaryType_field of None \<Rightarrow> js ''concise'' | Some t \<Rightarrow> t);
          missing = res_json (ErrorBody (js ''Video URL is required'')
                                (Some (js ''Please provide a YouTube video URL'')))
                      (res_status 400 res_init)
      in case videoUrl_field of
           None \<Rightarrow> missing
         | Some videoUrl \<Rightarrow>
             if videoUrl = [] then missing
             else
               (case extractVideoId videoUrl of
                  Inl err \<Rightarrow>
                    res_json (ErrorBody (js ''Invalid YouTube URL'')
                                (Some (js ''Please provide a valid YouTube video URL or video ID'')))
                      (res_status 400 res_init)
                | Inr videoId \<Rightarrow>
                    (case fetchTranscript videoId of
                       Inl e \<Rightarrow>
                         res_json (ErrorDetailsBody (js ''Transcript not available'')
                           (js ''This video does not have captions/subtitles. The video might be private, deleted, or has disabled captions.'')
                           (err_message e))
                           (res_status 404 res_init)
                     | Inr transcriptData \<Rightarrow>
                         (let fullTranscript = join (js '' '') (map seg_text transcriptData)
                          in if fullTranscript = [] \<or> length (trim fullTranscript) < 10 then
                               res_json (ErrorBody (js ''No transcript available'')
                                  (Some (js ''This video does not have captions/subtitles available'')))
                                 (res_status 404 res_init)
                             else
                               (case llm (video_prompts summaryType fullTranscript) of
                                  Inl e \<Rightarrow>
                                    res_json (ErrorBody (js ''Failed to generate summary'')
                                                (err_message e))
                                      (res_status 500 res_init)
                                | Inr answer \<Rightarrow>
                                    (let rawSummary =
                                           (case answer of
                                              None \<Rightarrow> js ''No summary generated''
                                            | Some a \<Rightarrow>
                                                if a = [] then js ''No summary generated'' else a)
                                     in res_json (VideoBody
                                          \<lparr>vs_videoId = videoId,
                                           vs_summary = removeThinkBlocks rawSummary,
                                           vs_summaryType = summaryType,
                                           vs_transcriptLength = length fullTranscript,
                                           vs_transcriptWordCount = length (split_ws fullTranscript),
                                           vs_videoDuration = last_offset transcriptData,
                                           vs_fullTranscript = transcript_preview fullTranscript\<rparr>)
                                          res_init))))))"

section \<open>The note update route\<close>

text \<open>The fields of the request body that the route reads; \<open>None\<close> is \<open>undefined\<close>.\<close>

record update_body =
  ub_title :: "json option"
  ub_content :: "json option"
  ub_tags :: "json option"
  ub_links :: "json option"
  ub_category :: "json option"

text \<open>The object \<open>updateData\<close>: two fields always, the others when the body has them.\<close>

record update_data =
  ud_updatedAt :: jsstring
  ud_version :: js_prim
  ud_title :: "json option"
  ud_content :: "json option"
  ud_tags :: "json option"
  ud_links :: "json option"
  ud_category :: "json option"

text \<open>\<open>Array.isArray(v) ? v : []\<close>.\<close>

fun array_or_empty :: "json \<Rightarrow> json" where
  "array_or_empty (JArr xs) = JArr xs"
| "array_or_empty v = JArr []"

text \<open>
  \<open>(existingData.version || 1) + 1\<close>, on whatever the document holds as its
  version: a missing or falsy version gives way to 1, then 1 is added.
\<close>

definition next_version :: "js_value option \<Rightarrow> js_prim" where
  "next_version v =
     prim_plus_one (to_primitive
       (case v of
          None \<Rightarrow> Prim (PNum (Finite 1))
        | Some x \<Rightarrow> if truthy x then x else Prim (PNum (Finite 1))))"

definition make_update_data :: "note_doc \<Rightarrow> update_body \<Rightarrow> jsstring \<Rightarrow> update_data" where
  "make_update_data existingData b now =
     \<lparr>ud_updatedAt = now,
      ud_version = next_version (nd_version existingData),
      ud_title = ub_title b,
      ud_content = ub_content b,
      ud_tags = map_option array_or_empty (ub_tags b),
      ud_links = map_option array_or_empty (ub_links b),
      ud_category = ub_category b\<rparr>"

text \<open>
  The document store's \<open>update\<close>: the fields of the argument are written, every
  other field of the document stays.
\<close>

definition set_field :: "'a option \<Rightarrow> 'a option \<Rightarrow> 'a option" where
  "set_field new old = (case new of None \<Rightarrow> old | Some v \<Rightarrow> Some v)"

definition doc_update :: "update_data \<Rightarrow> note_doc \<Rightarrow> note_doc" where
  "doc_update u d =
     d\<lparr>nd_updatedAt := Some (ud_updatedAt u),
       nd_version := Some (Prim (ud_version u)),
       nd_title := set_field (ud_title u) (nd_title d),
       nd_content := set_field (ud_content u) (nd_content d),
       nd_tags := set_field (ud_tags u) (nd_tags d),
       nd_links := set_field (ud_links u) (nd_links d),
       nd_category := set_field (ud_category u) (nd_category d)\<rparr>"

text \<open>
  \<open>PUT /:id\<close>, once the middleware in front of the route has let the request pass
  and the token check has given \<open>userId\<close>: the collection of notes before, the
  collection after and the response. The documents are taken as the code reads
  them; clients may write their own notes to the store directly, so a document
  need not come from this server.
\<close>

definition update_note ::
  "jsstring \<Rightarrow> jsstring \<Rightarrow> update_body \<Rightarrow> jsstring \<Rightarrow> (jsstring \<rightharpoonup> note_doc)
     \<Rightarrow> (jsstring \<rightharpoonup> note_doc) \<times> response" where
  "update_note userId noteId b now notes =
     (case notes noteId of
        None \<Rightarrow>
          (notes, res_json (ErrorBody (js ''Note not found'')
                              (Some (js ''The requested note does not exist'')))
                    (res_status 404 res_init))
      | Some existingData \<Rightarrow>
          if nd_userId existingData \<noteq> Some userId then
            (notes, res_json (ErrorBody (js ''Access denied'')
                                (Some (js ''You do not have permission to update this note'')))
                      (res_status 403 res_init))
          else
            (let updated = doc_update (make_update_data existingData b now) existingData
             in (notes(noteId \<mapsto> updated), res_json (NoteBody noteId updated) res_init)))"

section \<open>Predicates of the statements\<close>

text \<open>
  Two strings that differ in the case of ASCII letters only; a delimiter occurring
  somewhere in a string, in any letter case; a string holding a complete block,
  that is an opening delimiter with a closing delimiter somewhere after it.
\<close>

definition ci_eq :: "jsstring \<Rightarrow> jsstring \<Rightarrow> bool" where
  "ci_eq a b \<longleftrightarrow> map canonicalize a = map canonicalize b"

fun contains_ci :: "jsstring \<Rightarrow> jsstring \<Rightarrow> bool" where
  "contains_ci p [] = ci_prefix p []"
| "contains_ci p (c # cs) = (ci_prefix p (c # cs) \<or> contains_ci p cs)"

fun has_block :: "jsstring \<Rightarrow> bool" where
  "has_block [] = False"
| "has_block (c # cs) =
     ((ci_prefix think_open (c # cs) \<and> contains_ci think_close (drop (length think_open) (c # cs)))
      \<or> has_block cs)"

text \<open>The non-empty texts that a sequence of chunks carries, in the order of arrival.\<close>

fun chunk_texts :: "chunk list \<Rightarrow> jsstring list" where
  "chunk_texts [] = []"
| "chunk_texts (ch # chs) =
     (case chunk_content ch of
        None \<Rightarrow> chunk_texts chs
      | Some t \<Rightarrow> if t = [] then chunk_texts chs else t # chunk_texts chs)"

text \<open>Sample inputs: a page with a long main element, an error, a chunk.\<close>

definition sample_text :: jsstring where
  "sample_text = concat (replicate 3 (js ''The quick brown fox  jumps over\<newline>the lazy dog. ''))"

definition sample_page :: page where
  "sample_page =
     \<lparr>pg_count = (\<lambda>sel. if sel = ''main'' \<or> sel = ''.content'' then 1 else 0),
      pg_text = (\<lambda>sel. if sel = ''main'' then sample_text
                       else if sel = ''.content'' then js ''Related links'' else []),
      pg_paragraphs = [js ''Related links''],
      pg_body = js ''Related links'' @ sample_text,
      pg_title = js '' Foxes ''\<rparr>"

definition sample_error :: js_error where
  "sample_error = \<lparr>err_message = Some (js ''socket hang up''), err_code = None,
     err_response = None\<rparr>"

definition sample_chunk :: "string \<Rightarrow> chunk" where
  "sample_chunk t = Chunk [Choice (Some (ChunkDelta (Some (js t))))]"

text \<open>A page whose main element, the only candidate, has fewer than 100 characters.\<close>

definition short_page :: page where
  "short_page =
     \<lparr>pg_count = (\<lambda>sel. if sel = ''main'' then 1 else 0),
      pg_text = (\<lambda>sel. if sel = ''main'' then js ''A main element with less than a hundred characters.'' else []),
      pg_paragraphs = [js ''Intro.''],
      pg_body = js ''Intro.A main element with less than a hundred characters.'',
      pg_title = []\<rparr>"

text \<open>Trimming at the end only.\<close>

definition rtrim :: "jsstring \<Rightarrow> jsstring" where
  "rtrim s = rev (dropWhile is_space (rev s))"

text \<open>A page that yields almost no text.\<close>

definition tiny_page :: page where
  "tiny_page =
     \<lparr>pg_count = (\<lambda>sel. 0), pg_text = (\<lambda>sel. []), pg_paragraphs = [],
      pg_body = js ''  Loading...  '', pg_title = []\<rparr>"

text \<open>The field \<open>fullTranscript\<close> of a JSON answer, and a caption track of 1001 characters.\<close>

definition answer_fullTranscript :: "response \<Rightarrow> jsstring option" where
  "answer_fullTranscript res =
     (case jsonBody res of Some (VideoBody v) \<Rightarrow> Some (vs_fullTranscript v) | _ \<Rightarrow> None)"

definition long_caption :: "segment list" where
  "long_caption = [\<lparr>seg_text = replicate 1001 0x61, seg_offset = 0, seg_duration = 90\<rparr>]"

text \<open>A stored note with a given version, and a request body that sets the title only.\<close>

definition sample_note :: "js_value option \<Rightarrow> note_doc" where
  "sample_note v =
     \<lparr>nd_userId = Some (js ''u1''), nd_version = v,
      nd_updatedAt = Some (js ''2024-05-01T10:00:00.000Z''),
      nd_title = Some (JStr (js ''Groceries'')), nd_content = Some (JStr (js ''milk'')),
      nd_tags = Some (JArr [JStr (js ''home'')]), nd_links = Some (JArr []),
      nd_category = Some (JStr (js ''general'')),
      nd_other = [js ''createdAt'' \<mapsto> JStr (js ''2024-05-01T10:00:00.000Z'')]\<rparr>"

definition title_only :: update_body where
  "title_only = \<lparr>ub_title = Some (JStr (js ''Shopping'')), ub_content = None, ub_tags = None,
     ub_links = None, ub_category = None\<rparr>"

text \<open>
  A page on which two later selectors match with trimmed texts of the same length,
  both under 100 characters, and whose paragraphs together have more than 100.
\<close>

definition para_page :: page where
  "para_page =
     \<lparr>pg_count = (\<lambda>sel. if sel = ''article'' \<or> sel = ''.article-body'' then 1 else 0),
      pg_text = (\<lambda>sel. if sel = ''article'' then js ''  Teaser one ''
                       else if sel = ''.article-body'' then js ''Teaser two'' else []),
      pg_paragraphs =
        [js '' The first paragraph of the story has  more than fifty characters in it. '',
         js ''The second paragraph of the story also has more than fifty characters.''],
      pg_body = js ''Teaser one Menu'',
      pg_title = js ''Story''\<rparr>"






section \<open>The stream of the chat route\<close>

lemma relay_texts:
  assumes "map chunk_content chs = map Some texts" and "[] \<notin> set texts"
  shows "relay chs (full, r) =
     (full @ concat texts,
      r\<lparr>headersSent := headersSent r \<or> texts \<noteq> [], written := written r @ map DeltaFrame texts\<rparr>)"
  using assms
proof (induction chs arbitrary: texts full r)
  case Nil
  then show ?case by simp
next
  case (Cons ch chs)
  then obtain t ts where texts: "texts = t # ts" by (cases texts) auto
  with Cons.prems have ch: "chunk_content ch = Some t" and rest: "map chunk_content chs = map Some ts"
    and t: "t \<noteq> []" and ts: "[] \<notin> set ts" by auto
  show ?case
    using Cons.IH [OF rest ts] ch t by (simp add: texts res_write_def)
qed

text \<open>
  C1. When the completion yields N chunks, each with a non-empty text, and then
  ends (or throws after at least one chunk), the chat route writes exactly the N
  delta frames, in the order of the chunks, and after them exactly one last frame:
  the finished frame with the cleaned text, or the error frame. The response has
  then ended, so nothing follows the last frame.
\<close>

theorem chat_stream_ordering:
  assumes "p \<noteq> []" and "create p = Completion chs fin"
    and "map chunk_content chs = map Some texts" and "[] \<notin> set texts"
    and "fin = None \<or> chs \<noteq> []"
  shows "written (chat_handler (Some p) create) =
           map DeltaFrame texts @
             [case fin of
                None \<Rightarrow> FinishedFrame (removeThinkBlocks (concat texts)) None
              | Some e \<Rightarrow> ErrorFrame (js ''AI service error'') (err_message e)]
         \<and> length texts = length chs
         \<and> ended (chat_handler (Some p) create)
         \<and> statusCode (chat_handler (Some p) create) = 200
         \<and> jsonBody (chat_handler (Some p) create) = None"
proof -
  have len: "length texts = length chs"
    using assms(3) by (metis length_map)
  have r: "relay chs ([], res_init) =
     (concat texts,
      res_init\<lparr>headersSent := headersSent res_init \<or> texts \<noteq> [],
        written := written res_init @ map DeltaFrame texts\<rparr>)"
    using relay_texts [OF assms(3,4), of "[]" res_init] by simp
  show ?thesis
  proof (cases fin)
    case None
    then show ?thesis
      using assms(1,2) r len
      by (simp add: chat_handler_def res_init_def res_write_def res_end_def)
  next
    case (Some e)
    with assms(5) len have "texts \<noteq> []" by auto
    then show ?thesis
      using assms(1,2) r len Some
      by (simp add: chat_handler_def chat_catch_def res_init_def res_write_def res_end_def)
  qed
qed

theorem chat_stream_ordering_witness:
  "js ''hi'' \<noteq> []
   \<and> written (chat_handler (Some (js ''hi''))
        (\<lambda>p. Completion [Chunk [Choice (Some (ChunkDelta (Some (js ''Hel''))))],
                          Chunk [Choice (Some (ChunkDelta (Some (js ''lo''))))]] None))
     = [DeltaFrame (js ''Hel''), DeltaFrame (js ''lo''), FinishedFrame (js ''Hello'') None]"
  using chat_stream_ordering [of "js ''hi''"
      "\<lambda>p. Completion [Chunk [Choice (Some (ChunkDelta (Some (js ''Hel''))))],
                          Chunk [Choice (Some (ChunkDelta (Some (js ''lo''))))]] None"
      "[Chunk [Choice (Some (ChunkDelta (Some (js ''Hel''))))],
                          Chunk [Choice (Some (ChunkDelta (Some (js ''lo''))))]]"
      None "[js ''Hel'', js ''lo'']"]
  by (simp add: js_def removeThinkBlocks_def trim_def is_space_def think_open_def)

section \<open>Think blocks\<close>

lemma think_open_unfold: "think_open = [0x3C, 0x74, 0x68, 0x69, 0x6E, 0x6B, 0x3E]"
  by (simp add: think_open_def js_def)

lemma think_close_unfold: "think_close = [0x3C, 0x2F, 0x74, 0x68, 0x69, 0x6E, 0x6B, 0x3E]"
  by (simp add: think_close_def js_def)

lemma find_close_None_iff: "find_close s = None \<longleftrightarrow> \<not> contains_ci think_close s"
  by (induction s) (auto simp: think_close_unfold)

lemma ci_prefix_overlap_aux:
  "ci_prefix ps (cs @ t) \<Longrightarrow> t \<noteq> [] \<Longrightarrow> canonicalize (hd t) \<notin> canonicalize ` set ps
     \<Longrightarrow> ci_prefix ps cs"
proof (induction ps cs rule: ci_prefix.induct)
  case (1 s)
  then show ?case by simp
next
  case (2 p ps)
  then show ?case by (cases t) auto
next
  case (3 p ps c cs)
  then show ?case by auto
qed

lemma ci_prefix_overlap:
  "ci_prefix (p # ps) ((c # cs) @ t) \<Longrightarrow> t \<noteq> [] \<Longrightarrow> canonicalize (hd t) \<notin> canonicalize ` set ps
     \<Longrightarrow> ci_prefix (p # ps) (c # cs)"
  using ci_prefix_overlap_aux [of ps cs t] by simp

lemma ci_eq_prefix: "ci_eq d p \<Longrightarrow> ci_prefix p (d @ rest)"
  unfolding ci_eq_def
proof (induction p "d @ rest" arbitrary: d rest rule: ci_prefix.induct)
  case (1 s)
  then show ?case by simp
next
  case (2 p ps)
  then show ?case by auto
next
  case (3 p ps c cs)
  then obtain d' where "d = c # d'" by (cases d) auto
  with 3 show ?case by auto
qed

lemma ci_eq_length: "ci_eq d p \<Longrightarrow> length d = length p"
  unfolding ci_eq_def by (metis length_map)

lemma ci_eq_hd_close: "ci_eq cl think_close \<Longrightarrow> cl \<noteq> [] \<and> canonicalize (hd cl) = 0x3C"
  unfolding ci_eq_def think_close_unfold by (cases cl) (auto simp: canonicalize_def)

lemma ci_eq_hd_open: "ci_eq op think_open \<Longrightarrow> op \<noteq> [] \<and> canonicalize (hd op) = 0x3C"
  unfolding ci_eq_def think_open_unfold by (cases op) (auto simp: canonicalize_def)

lemma lt_notin_close: "(0x3C :: code_unit) \<notin> canonicalize ` set (tl think_close)"
  by (simp add: think_close_unfold canonicalize_def)

lemma lt_notin_open: "(0x3C :: code_unit) \<notin> canonicalize ` set (tl think_open)"
  by (simp add: think_open_unfold canonicalize_def)

lemma find_close_Some: "find_close s = Some r \<Longrightarrow> contains_ci think_close s"
  using find_close_None_iff [of s] by auto

lemma find_close_hit:
  "ci_prefix think_close s \<Longrightarrow> find_close s = Some (drop (length think_close) s)"
  by (cases s) (simp_all add: think_close_unfold)

lemma replace_think_hit:
  "ci_prefix think_open s \<Longrightarrow> find_close (drop (length think_open) s) = Some r
     \<Longrightarrow> replace_think s = replace_think r"
  by (cases s) (simp_all add: think_open_unfold)

lemma find_close_first:
  assumes "\<not> contains_ci think_close body" and "ci_eq cl think_close"
  shows "find_close (body @ cl @ rest) = Some rest"
  using assms(1)
proof (induction body)
  case Nil
  have "ci_prefix think_close (cl @ rest)" using assms(2) by (rule ci_eq_prefix)
  then have "find_close (cl @ rest) = Some (drop (length think_close) (cl @ rest))"
    by (rule find_close_hit)
  moreover have "length cl = length think_close" using assms(2) by (rule ci_eq_length)
  ultimately show ?case by simp
next
  case (Cons c body)
  have nb: "\<not> ci_prefix think_close (c # body)" and rest: "\<not> contains_ci think_close body"
    using Cons.prems by auto
  have "\<not> ci_prefix think_close ((c # body) @ cl @ rest)"
  proof
    assume a: "ci_prefix think_close ((c # body) @ cl @ rest)"
    have hd: "cl @ rest \<noteq> []" "canonicalize (hd (cl @ rest)) = 0x3C"
      using ci_eq_hd_close [OF assms(2)] by auto
    have "ci_prefix think_close (c # body)"
      using ci_prefix_overlap [of "hd think_close" "tl think_close" c body "cl @ rest"] a hd lt_notin_close
      by (simp add: think_close_unfold)
    with nb show False by simp
  qed
  then show ?case using Cons.IH [OF rest] by simp
qed

lemma replace_think_block:
  assumes "\<not> contains_ci think_open pre" and "ci_eq op think_open"
    and "\<not> contains_ci think_close body" and "ci_eq cl think_close"
  shows "replace_think (pre @ op @ body @ cl @ rest) = pre @ replace_think rest"
  using assms(1)
proof (induction pre)
  case Nil
  have pre: "ci_prefix think_open (op @ body @ cl @ rest)" using assms(2) by (rule ci_eq_prefix)
  have "length op = length think_open" using assms(2) by (rule ci_eq_length)
  then have "find_close (drop (length think_open) (op @ body @ cl @ rest)) = Some rest"
    using find_close_first [OF assms(3,4), of rest] by simp
  with pre show ?case using replace_think_hit by simp
next
  case (Cons c pre)
  have nb: "\<not> ci_prefix think_open (c # pre)" and rest: "\<not> contains_ci think_open pre"
    using Cons.prems by auto
  have "\<not> ci_prefix think_open ((c # pre) @ op @ body @ cl @ rest)"
  proof
    assume a: "ci_prefix think_open ((c # pre) @ op @ body @ cl @ rest)"
    have hd: "op @ body @ cl @ rest \<noteq> []" "canonicalize (hd (op @ body @ cl @ rest)) = 0x3C"
      using ci_eq_hd_open [OF assms(2)] by auto
    have "ci_prefix think_open (c # pre)"
      using ci_prefix_overlap [of "hd think_open" "tl think_open" c pre "op @ body @ cl @ rest"] a hd lt_notin_open
      by (simp add: think_open_unfold)
    with nb show False by simp
  qed
  then show ?case using Cons.IH [OF rest] by simp
qed

lemma replace_think_no_block: "\<not> has_block s \<Longrightarrow> replace_think s = s"
proof (induction s rule: replace_think.induct)
  case 1
  then show ?case by simp
next
  case (2 c cs)
  then show ?case
    by (auto dest: find_close_Some split: option.splits)
qed

text \<open>
  C2 (as amended). The text \<open>A<think>ignored\nmore</think>B\<close> is cleaned to \<open>AB\<close>.
  A block that runs from an opening delimiter to the first closing delimiter after
  it is removed, and the scan goes on behind it, so several blocks in a row are all
  removed; of nested blocks the part behind the first closing delimiter stays. A
  text without a complete block is stripped of nothing; only the white space at
  its two ends is trimmed.
\<close>

theorem removeThinkBlocks_blocks:
  "removeThinkBlocks (js ''A<think>ignored\<newline>more</think>B'') = js ''AB''
   \<and> (\<not> contains_ci think_open pre \<and> ci_eq op think_open
        \<and> \<not> contains_ci think_close body \<and> ci_eq cl think_close
      \<longrightarrow> replace_think (pre @ op @ body @ cl @ rest) = pre @ replace_think rest
          \<and> removeThinkBlocks (pre @ op @ body @ cl @ rest) = trim (pre @ replace_think rest))
   \<and> (\<not> has_block s \<longrightarrow> replace_think s = s \<and> removeThinkBlocks s = trim s)"
proof (intro conjI impI)
  show "removeThinkBlocks (js ''A<think>ignored\<newline>more</think>B'') = js ''AB''"
    by code_simp
next
  assume h: "\<not> contains_ci think_open pre \<and> ci_eq op think_open
        \<and> \<not> contains_ci think_close body \<and> ci_eq cl think_close"
  then show r: "replace_think (pre @ op @ body @ cl @ rest) = pre @ replace_think rest"
    by (simp add: replace_think_block)
  have "op \<noteq> []" using h ci_eq_hd_open by blast
  then show "removeThinkBlocks (pre @ op @ body @ cl @ rest) = trim (pre @ replace_think rest)"
    using r by (simp add: removeThinkBlocks_def)
next
  assume h: "\<not> has_block s"
  then show r: "replace_think s = s" by (rule replace_think_no_block)
  show "removeThinkBlocks s = trim s"
    by (simp add: removeThinkBlocks_def r trim_def)
qed

text \<open>The block law and the trimming at a nested and at an unterminated input.\<close>

theorem removeThinkBlocks_blocks_witness:
  "\<not> contains_ci think_open (js ''A'') \<and> ci_eq (js ''<THINK>'') think_open
   \<and> \<not> contains_ci think_close (js ''x<think>y'') \<and> ci_eq (js ''</Think>'') think_close
   \<and> removeThinkBlocks (js ''A'' @ js ''<THINK>'' @ js ''x<think>y'' @ js ''</Think>'' @ js ''z</think> '')
       = js ''Az</think>''
   \<and> \<not> has_block (js '' <think>x'')
   \<and> removeThinkBlocks (js '' <think>x'') = js ''<think>x''"
  using removeThinkBlocks_blocks [of "js ''A''" "js ''<THINK>''" "js ''x<think>y''" "js ''</Think>''"
      "js ''z</think> ''" "js '' <think>x''"]
  by (simp add: js_def think_open_unfold think_close_unfold ci_eq_def canonicalize_def
      trim_def is_space_def)

text \<open>
  C2 as first stated fails twice: the inner block of a nested pair leaves the tail
  \<open>z</think>\<close> behind, and an unterminated text loses its leading blank.
\<close>

theorem removeThinkBlocks_counterexample:
  "removeThinkBlocks (js ''A<think>x<think>y</think>z</think>B'') = js ''Az</think>B''
   \<and> removeThinkBlocks (js ''A<think>x<think>y</think>z</think>B'') \<noteq> js ''AB''
   \<and> removeThinkBlocks (js '' <think>x'') = js ''<think>x''
   \<and> removeThinkBlocks (js '' <think>x'') \<noteq> js '' <think>x''"
  by code_simp

section \<open>Failures of the completion service\<close>

lemma relay_chunk_texts:
  "relay chs (full, r) =
     (full @ concat (chunk_texts chs),
      r\<lparr>headersSent := headersSent r \<or> chunk_texts chs \<noteq> [],
        written := written r @ map DeltaFrame (chunk_texts chs)\<rparr>)"
  by (induction chs arbitrary: full r) (auto simp: res_write_def split: option.splits)

lemma chat_failure_before_output:
  assumes "p \<noteq> []"
    and "create p = CreateFails e \<or> (create p = Completion chs (Some e) \<and> chunk_texts chs = [])"
  shows "chat_handler (Some p) create =
     \<lparr>statusCode = 500, headersSent = True, written = [],
      jsonBody = Some (ErrorBody (js ''AI service error'')
                   (Some (message_or e (js ''Failed to generate response'')))),
      ended = True\<rparr>"
  using assms
  by (auto simp: chat_handler_def chat_catch_def relay_chunk_texts res_init_def res_json_def
      res_status_def)

lemma chat_failure_after_output:
  assumes "p \<noteq> []" and "create p = Completion chs (Some e)" and "chunk_texts chs \<noteq> []"
  shows "chat_handler (Some p) create =
     \<lparr>statusCode = 200, headersSent = True,
      written = map DeltaFrame (chunk_texts chs)
                  @ [ErrorFrame (js ''AI service error'') (err_message e)],
      jsonBody = None, ended = True\<rparr>"
  using assms
  by (simp add: chat_handler_def chat_catch_def relay_chunk_texts res_init_def res_write_def
      res_end_def)

lemma note_failure_before_output:
  assumes "p \<noteq> []"
    and "q = note_full_prompt
               (note_system_prompt (case af of None \<Rightarrow> js ''generate'' | Some a \<Rightarrow> a))
               (case cf of None \<Rightarrow> [] | Some c \<Rightarrow> c) p"
    and "create q = CreateFails e \<or> (create q = Completion chs (Some e) \<and> chunk_texts chs = [])"
  shows "generate_note_handler (Some p) cf af create =
     \<lparr>statusCode = 500, headersSent = True, written = [],
      jsonBody = Some (ErrorBody (js ''Note generation failed'')
                   (Some (message_or e (js ''Failed to generate note content'')))),
      ended = True\<rparr>"
  using assms
  by (auto simp: generate_note_handler_def Let_def note_catch_def relay_chunk_texts res_init_def
      res_json_def res_status_def)

lemma note_failure_after_output:
  assumes "p \<noteq> []"
    and "q = note_full_prompt
               (note_system_prompt (case af of None \<Rightarrow> js ''generate'' | Some a \<Rightarrow> a))
               (case cf of None \<Rightarrow> [] | Some c \<Rightarrow> c) p"
    and "create q = Completion chs (Some e)" and "chunk_texts chs \<noteq> []"
  shows "generate_note_handler (Some p) cf af create =
     \<lparr>statusCode = 200, headersSent = True,
      written = map DeltaFrame (chunk_texts chs)
                  @ [ErrorFrame (js ''Note generation failed'') (err_message e)],
      jsonBody = None, ended = True\<rparr>"
  using assms
  by (simp add: generate_note_handler_def Let_def note_catch_def relay_chunk_texts res_init_def
      res_write_def res_end_def)

lemma web_llm_failure:
  assumes "url \<noteq> []" and "valid url" and "fetch url = Inr html"
    and "ex = extractMainContent load html url" and "50 \<le> length (ex_content ex)"
    and "q = web_prompt_template (case st of None \<Rightarrow> js ''general'' | Some t \<Rightarrow> t) (ex_title ex) url
               @ truncate_content (ex_content ex) (maxContentLength env_max)"
    and "create q = CreateFails e \<and> chs = [] \<or> create q = Completion chs (Some e)"
  shows "web_summarize_handler (Some url) st valid fetch load env_max now create =
     \<lparr>statusCode = 200, headersSent = True,
      written = [StatusFrame (js ''extracting'') (js ''Extracting content from URL...'') None,
                 StatusFrame (js ''summarizing'') (js ''Generating AI summary...'')
                   (Some (ex_title ex))]
                @ map DeltaFrame (chunk_texts chs)
                @ [ErrorFrame (js ''Web summarization failed'') (err_message e)],
      jsonBody = None, ended = True\<rparr>"
  using assms
  by (auto simp: web_summarize_handler_def Let_def web_catch_def relay_chunk_texts res_init_def
      res_write_def res_end_def)


lemma sample_extracted:
  "extractMainContent (\<lambda>html. sample_page) (js ''<html>'') (js ''https://example.org/fox'') =
     \<lparr>ex_content = js ''The quick brown fox jumps over the lazy dog. The quick brown fox jumps over the lazy dog. The quick brown fox jumps over the lazy dog.'',
      ex_title = js ''Foxes'', ex_url = js ''https://example.org/fox''\<rparr>"
  by code_simp

text \<open>
  C3. In the chat route a failure of the completion call before anything was
  written (the call throws at once, or the stream throws before a chunk with text)
  is answered with status 500 and a JSON body, and no frame is written. After a
  delta frame has gone out (the headers are sent exactly then) the route writes
  one error frame behind the delta frames and ends the response; the status stays
  200. The note generation route does the same with its own error label. In
  the web summary route the status frames are written before the call, so
  every failure of the call ends the stream with one error frame and status 200.
\<close>

theorem stream_error_bifurcation:
  "(p \<noteq> [] \<and> (create p = CreateFails e \<or> create p = Completion chs (Some e) \<and> chunk_texts chs = [])
      \<longrightarrow> chat_handler (Some p) create =
            \<lparr>statusCode = 500, headersSent = True, written = [],
             jsonBody = Some (ErrorBody (js ''AI service error'')
                          (Some (message_or e (js ''Failed to generate response'')))),
             ended = True\<rparr>)
   \<and> (p \<noteq> [] \<and> create p = Completion chs (Some e) \<and> chunk_texts chs \<noteq> []
      \<longrightarrow> chat_handler (Some p) create =
            \<lparr>statusCode = 200, headersSent = True,
             written = map DeltaFrame (chunk_texts chs)
                         @ [ErrorFrame (js ''AI service error'') (err_message e)],
             jsonBody = None, ended = True\<rparr>)
   \<and> headersSent (snd (relay chs ([], res_init))) = (chunk_texts chs \<noteq> [])
   \<and> (p \<noteq> []
        \<and> (notecreate (note_full_prompt
              (note_system_prompt (case af of None \<Rightarrow> js ''generate'' | Some a \<Rightarrow> a))
              (case cf of None \<Rightarrow> [] | Some c \<Rightarrow> c) p) = CreateFails e
           \<or> notecreate (note_full_prompt
                (note_system_prompt (case af of None \<Rightarrow> js ''generate'' | Some a \<Rightarrow> a))
                (case cf of None \<Rightarrow> [] | Some c \<Rightarrow> c) p) = Completion chs (Some e)
             \<and> chunk_texts chs = [])
      \<longrightarrow> generate_note_handler (Some p) cf af notecreate =
            \<lparr>statusCode = 500, headersSent = True, written = [],
             jsonBody = Some (ErrorBody (js ''Note generation failed'')
                          (Some (message_or e (js ''Failed to generate note content'')))),
             ended = True\<rparr>)
   \<and> (p \<noteq> []
        \<and> notecreate (note_full_prompt
              (note_system_prompt (case af of None \<Rightarrow> js ''generate'' | Some a \<Rightarrow> a))
              (case cf of None \<Rightarrow> [] | Some c \<Rightarrow> c) p) = Completion chs (Some e)
        \<and> chunk_texts chs \<noteq> []
      \<longrightarrow> generate_note_handler (Some p) cf af notecreate =
            \<lparr>statusCode = 200, headersSent = True,
             written = map DeltaFrame (chunk_texts chs)
                         @ [ErrorFrame (js ''Note generation failed'') (err_message e)],
             jsonBody = None, ended = True\<rparr>)
   \<and> (url \<noteq> [] \<and> valid url \<and> fetch url = Inr html
        \<and> 50 \<le> length (ex_content (extractMainContent load html url))
        \<and> webcreate
             (web_prompt_template (case st of None \<Rightarrow> js ''general'' | Some t \<Rightarrow> t)
                (ex_title (extractMainContent load html url)) url
              @ truncate_content (ex_content (extractMainContent load html url))
                  (maxContentLength env_max))
            = (if thrown_at_once then CreateFails e else Completion chs (Some e))
      \<longrightarrow> web_summarize_handler (Some url) st valid fetch load env_max now webcreate =
            \<lparr>statusCode = 200, headersSent = True,
             written = [StatusFrame (js ''extracting'') (js ''Extracting content from URL...'') None,
                        StatusFrame (js ''summarizing'') (js ''Generating AI summary...'')
                          (Some (ex_title (extractMainContent load html url)))]
                       @ (if thrown_at_once then [] else map DeltaFrame (chunk_texts chs))
                       @ [ErrorFrame (js ''Web summarization failed'') (err_message e)],
             jsonBody = None, ended = True\<rparr>)"
proof (intro conjI impI)
  assume "p \<noteq> [] \<and> (create p = CreateFails e \<or> create p = Completion chs (Some e) \<and> chunk_texts chs = [])"
  then show "chat_handler (Some p) create =
            \<lparr>statusCode = 500, headersSent = True, written = [],
             jsonBody = Some (ErrorBody (js ''AI service error'')
                          (Some (message_or e (js ''Failed to generate response'')))),
             ended = True\<rparr>"
    using chat_failure_before_output [of p create e chs] by blast
next
  assume "p \<noteq> [] \<and> create p = Completion chs (Some e) \<and> chunk_texts chs \<noteq> []"
  then show "chat_handler (Some p) create =
            \<lparr>statusCode = 200, headersSent = True,
             written = map DeltaFrame (chunk_texts chs)
                         @ [ErrorFrame (js ''AI service error'') (err_message e)],
             jsonBody = None, ended = True\<rparr>"
    using chat_failure_after_output [of p create chs e] by blast
next
  show "headersSent (snd (relay chs ([], res_init))) = (chunk_texts chs \<noteq> [])"
    by (simp add: relay_chunk_texts res_init_def)
next
  let ?q = "note_full_prompt
              (note_system_prompt (case af of None \<Rightarrow> js ''generate'' | Some a \<Rightarrow> a))
              (case cf of None \<Rightarrow> [] | Some c \<Rightarrow> c) p"
  assume "p \<noteq> [] \<and> (notecreate ?q = CreateFails e
           \<or> notecreate ?q = Completion chs (Some e) \<and> chunk_texts chs = [])"
  then show "generate_note_handler (Some p) cf af notecreate =
            \<lparr>statusCode = 500, headersSent = True, written = [],
             jsonBody = Some (ErrorBody (js ''Note generation failed'')
                          (Some (message_or e (js ''Failed to generate note content'')))),
             ended = True\<rparr>"
    using note_failure_before_output [of p ?q af cf notecreate e chs] by blast
next
  let ?q = "note_full_prompt
              (note_system_prompt (case af of None \<Rightarrow> js ''generate'' | Some a \<Rightarrow> a))
              (case cf of None \<Rightarrow> [] | Some c \<Rightarrow> c) p"
  assume "p \<noteq> [] \<and> notecreate ?q = Completion chs (Some e) \<and> chunk_texts chs \<noteq> []"
  then show "generate_note_handler (Some p) cf af notecreate =
            \<lparr>statusCode = 200, headersSent = True,
             written = map DeltaFrame (chunk_texts chs)
                         @ [ErrorFrame (js ''Note generation failed'') (err_message e)],
             jsonBody = None, ended = True\<rparr>"
    using note_failure_after_output [of p ?q af cf notecreate chs e] by blast
next
  let ?ex = "extractMainContent load html url"
  let ?q = "web_prompt_template (case st of None \<Rightarrow> js ''general'' | Some t \<Rightarrow> t) (ex_title ?ex) url
              @ truncate_content (ex_content ?ex) (maxContentLength env_max)"
  assume h: "url \<noteq> [] \<and> valid url \<and> fetch url = Inr html \<and> 50 \<le> length (ex_content ?ex)
        \<and> webcreate ?q = (if thrown_at_once then CreateFails e else Completion chs (Some e))"
  show "web_summarize_handler (Some url) st valid fetch load env_max now webcreate =
            \<lparr>statusCode = 200, headersSent = True,
             written = [StatusFrame (js ''extracting'') (js ''Extracting content from URL...'') None,
                        StatusFrame (js ''summarizing'') (js ''Generating AI summary...'')
                          (Some (ex_title ?ex))]
                       @ (if thrown_at_once then [] else map DeltaFrame (chunk_texts chs))
                       @ [ErrorFrame (js ''Web summarization failed'') (err_message e)],
             jsonBody = None, ended = True\<rparr>"
  proof (cases thrown_at_once)
    case True
    then show ?thesis
      using h web_llm_failure [of url valid fetch html ?ex load ?q st env_max webcreate e "[]" now]
      by simp
  next
    case False
    then show ?thesis
      using h web_llm_failure [of url valid fetch html ?ex load ?q st env_max webcreate e chs now]
      by simp
  qed
qed

theorem stream_error_bifurcation_witness:
  "chat_handler (Some (js ''hi'')) (\<lambda>p. CreateFails sample_error) =
     \<lparr>statusCode = 500, headersSent = True, written = [],
      jsonBody = Some (ErrorBody (js ''AI service error'') (Some (js ''socket hang up''))),
      ended = True\<rparr>
   \<and> chat_handler (Some (js ''hi'')) (\<lambda>p. Completion [sample_chunk ''Hel''] (Some sample_error)) =
     \<lparr>statusCode = 200, headersSent = True,
      written = [DeltaFrame (js ''Hel''),
                 ErrorFrame (js ''AI service error'') (Some (js ''socket hang up''))],
      jsonBody = None, ended = True\<rparr>
   \<and> generate_note_handler (Some (js ''hi'')) None None
        (\<lambda>p. Completion [sample_chunk ''Hel''] (Some sample_error)) =
     \<lparr>statusCode = 200, headersSent = True,
      written = [DeltaFrame (js ''Hel''),
                 ErrorFrame (js ''Note generation failed'') (Some (js ''socket hang up''))],
      jsonBody = None, ended = True\<rparr>
   \<and> web_summarize_handler (Some (js ''https://example.org/fox'')) None (\<lambda>u. True)
        (\<lambda>u. Inr (js ''<html>'')) (\<lambda>html. sample_page) None (js ''2025-01-01T00:00:00.000Z'')
        (\<lambda>q. Completion [sample_chunk ''Fox''] (Some sample_error)) =
     \<lparr>statusCode = 200, headersSent = True,
      written = [StatusFrame (js ''extracting'') (js ''Extracting content from URL...'') None,
                 StatusFrame (js ''summarizing'') (js ''Generating AI summary...'')
                   (Some (js ''Foxes'')),
                 DeltaFrame (js ''Fox''),
                 ErrorFrame (js ''Web summarization failed'') (Some (js ''socket hang up''))],
      jsonBody = None, ended = True\<rparr>"
proof -
  note a = stream_error_bifurcation [where p = "js ''hi''" and create = "\<lambda>p. CreateFails sample_error"
      and e = sample_error and chs = "[]"]
  note b = stream_error_bifurcation [where p = "js ''hi''"
      and create = "\<lambda>p. Completion [sample_chunk ''Hel''] (Some sample_error)"
      and e = sample_error and chs = "[sample_chunk ''Hel'']"]
  note d = stream_error_bifurcation [where p = "js ''hi''" and af = None and cf = None
      and notecreate = "\<lambda>p. Completion [sample_chunk ''Hel''] (Some sample_error)"
      and e = sample_error and chs = "[sample_chunk ''Hel'']"]
  note c = stream_error_bifurcation [where url = "js ''https://example.org/fox''" and st = None
      and valid = "\<lambda>u. True" and fetch = "\<lambda>u. Inr (js ''<html>'')" and html = "js ''<html>''"
      and load = "\<lambda>html. sample_page" and env_max = None and now = "js ''2025-01-01T00:00:00.000Z''"
      and webcreate = "\<lambda>q. Completion [sample_chunk ''Fox''] (Some sample_error)"
      and thrown_at_once = False and e = sample_error and chs = "[sample_chunk ''Fox'']",
      unfolded sample_extracted]
  have ne: "js ''hi'' \<noteq> []" "js ''https://example.org/fox'' \<noteq> []"
    by (simp_all add: js_def)
  have len: "50 \<le> length (js ''The quick brown fox jumps over the lazy dog. The quick brown fox jumps over the lazy dog. The quick brown fox jumps over the lazy dog.'')"
    by (simp add: js_def)
  have t: "chunk_texts [sample_chunk ''Hel''] = [js ''Hel'']" "chunk_texts [sample_chunk ''Fox''] = [js ''Fox'']"
    by (simp_all add: sample_chunk_def js_def)
  have m: "message_or sample_error (js ''Failed to generate response'') = js ''socket hang up''"
    "err_message sample_error = Some (js ''socket hang up'')"
    by (simp_all add: message_or_def sample_error_def js_def)
  show ?thesis
    using a b c d ne len t m by simp
qed

section \<open>Truncation of the content to summarise\<close>

lemma summarize_prompts:
  assumes "content \<noteq> []"
  shows "fst (summarize_handler (Some content) stf env_max llm) =
     [promptTemplate (case stf of None \<Rightarrow> js ''general'' | Some t \<Rightarrow> t)
        @ truncate_content content (maxContentLength env_max)]"
  using assms by (simp add: summarize_handler_def Let_def split: sum.splits)

lemma summarize_success:
  assumes "content \<noteq> []"
    and "llm (promptTemplate (case stf of None \<Rightarrow> js ''general'' | Some t \<Rightarrow> t)
                @ truncate_content content (maxContentLength env_max)) = Inr answer"
  shows "snd (summarize_handler (Some content) stf env_max llm) =
            \<lparr>statusCode = 200, headersSent = True, written = [],
             jsonBody = Some (SummaryBody
                          (removeThinkBlocks (case answer of None \<Rightarrow> [] | Some a \<Rightarrow> a))
                          (length content) (case stf of None \<Rightarrow> js ''general'' | Some t \<Rightarrow> t)
                          (int (length content) > maxContentLength env_max)),
             ended = True\<rparr>"
  using assms by (simp add: summarize_handler_def Let_def res_json_def res_init_def)

text \<open>
  C4. With \<open>m\<close> the maximum length in force (the configured value, 50000 when
  none is set): the prompt sent to the completion service is the template followed
  by the first \<open>m\<close> code units of the content and \<open>...[content truncated]\<close> when
  the content is longer than \<open>m\<close>, and by the content itself otherwise; the answer
  of the route carries \<open>truncated\<close> as true in the first case and false in the
  second.
\<close>

theorem summarize_truncation:
  assumes "content \<noteq> []" and "m = maxContentLength env_max"
    and "st = (case stf of None \<Rightarrow> js ''general'' | Some t \<Rightarrow> t)"
    and "embedded = (if int (length content) > m
                     then take (nat m) content @ js ''...[content truncated]'' else content)"
  shows "fst (summarize_handler (Some content) stf env_max llm) = [promptTemplate st @ embedded]
    \<and> (\<forall>answer. llm (promptTemplate st @ embedded) = Inr answer \<longrightarrow>
          snd (summarize_handler (Some content) stf env_max llm) =
            \<lparr>statusCode = 200, headersSent = True, written = [],
             jsonBody = Some (SummaryBody
                          (removeThinkBlocks (case answer of None \<Rightarrow> [] | Some a \<Rightarrow> a))
                          (length content) st (int (length content) > m)),
             ended = True\<rparr>)
    \<and> maxContentLength None = 50000"
proof -
  have tc: "truncate_content content (maxContentLength env_max) = embedded"
    unfolding assms(4) assms(2) by (simp add: truncate_content_def substring0_def)
  have a: "fst (summarize_handler (Some content) stf env_max llm) = [promptTemplate st @ embedded]"
    using summarize_prompts [OF assms(1), of stf env_max llm] tc assms(3) by simp
  have b: "snd (summarize_handler (Some content) stf env_max llm) =
            \<lparr>statusCode = 200, headersSent = True, written = [],
             jsonBody = Some (SummaryBody
                          (removeThinkBlocks (case answer of None \<Rightarrow> [] | Some a \<Rightarrow> a))
                          (length content) st (int (length content) > m)),
             ended = True\<rparr>"
    if "llm (promptTemplate st @ embedded) = Inr answer" for answer
    using summarize_success [OF assms(1), of llm stf env_max answer] that tc assms(2,3) by simp
  have c: "maxContentLength None = 50000"
    by (simp add: maxContentLength_def)
  from a b c show ?thesis by blast
qed

theorem summarize_truncation_witness:
  "js ''abcdefgh'' \<noteq> []
   \<and> summarize_handler (Some (js ''abcdefgh'')) (Some (js ''brief'')) (Some 3)
       (\<lambda>q. Inr (Some (js ''ok''))) =
      ([js ''Provide a brief, concise summary (2-3 sentences) of the following content:\<newline>\<newline>abc...[content truncated]''],
       \<lparr>statusCode = 200, headersSent = True, written = [],
        jsonBody = Some (SummaryBody (js ''ok'') 8 (js ''brief'') True), ended = True\<rparr>)
   \<and> summarize_handler (Some (js ''abc'')) None (Some 3) (\<lambda>q. Inr (Some (js ''ok''))) =
      ([js ''Provide a comprehensive summary of the following content:\<newline>\<newline>abc''],
       \<lparr>statusCode = 200, headersSent = True, written = [],
        jsonBody = Some (SummaryBody (js ''ok'') 3 (js ''general'') False), ended = True\<rparr>)"
  using summarize_truncation [of "js ''abcdefgh''" 3 "Some 3" "js ''brief''" "Some (js ''brief'')"
      "js ''abc...[content truncated]''" "\<lambda>q. Inr (Some (js ''ok''))"]
    summarize_truncation [of "js ''abc''" 3 "Some 3" "js ''general''" None
      "js ''abc''" "\<lambda>q. Inr (Some (js ''ok''))"]
  by (simp add: prod_eq_iff js_def maxContentLength_def promptTemplate_def removeThinkBlocks_def
      trim_def is_space_def think_open_def)

section \<open>Extraction of the video identifier\<close>

lemma match_here_other:
  "c \<noteq> 0x79 \<Longrightarrow> match_here url_prefixes (c # s) = None"
  by (simp add: url_prefixes_def js_def)

lemma match_url_skip:
  "0x79 \<notin> set pre \<Longrightarrow> s \<noteq> [] \<Longrightarrow> match_url (pre @ s) = match_url s"
proof (induction pre)
  case Nil
  then show ?case by simp
next
  case (Cons c pre)
  then have "match_here url_prefixes (c # pre @ s) = None"
    by (intro match_here_other) auto
  then show ?case using Cons by simp
qed

lemma takeWhile_run:
  assumes "\<forall>c\<in>set run. id_char c" and "rest = [] \<or> \<not> id_char (hd rest)"
  shows "takeWhile id_char (run @ rest) = run"
proof -
  have "takeWhile id_char rest = []" using assms(2) by (cases rest) auto
  then show ?thesis using assms(1) by (simp add: takeWhile_append)
qed

lemma match_here_prefix:
  assumes "p \<in> {js ''youtube.com/watch?v='', js ''youtu.be/'', js ''youtube.com/embed/''}"
    and "run \<noteq> []" and "\<forall>c\<in>set run. id_char c" and "rest = [] \<or> \<not> id_char (hd rest)"
  shows "match_here url_prefixes (p @ run @ rest) = Some run"
proof -
  have t: "takeWhile id_char (run @ rest) = run"
    using assms(3,4) by (rule takeWhile_run)
  consider "p = js ''youtube.com/watch?v=''" | "p = js ''youtu.be/''" | "p = js ''youtube.com/embed/''"
    using assms(1) by auto
  then show ?thesis
  proof cases
    case 1
    have "take (length (js ''youtube.com/watch?v='')) (js ''youtube.com/watch?v='' @ run @ rest)
          = js ''youtube.com/watch?v=''" by simp
    then show ?thesis using t assms(2) unfolding 1 url_prefixes_def by simp
  next
    case 2
    have a: "take (length (js ''youtube.com/watch?v='')) (js ''youtu.be/'' @ run @ rest)
          \<noteq> js ''youtube.com/watch?v=''"
      by (simp add: js_def)
    have b: "take (length (js ''youtu.be/'')) (js ''youtu.be/'' @ run @ rest) = js ''youtu.be/''"
      by simp
    show ?thesis using a b t assms(2) unfolding 2 url_prefixes_def by simp
  next
    case 3
    have a: "take (length (js ''youtube.com/watch?v='')) (js ''youtube.com/embed/'' @ run @ rest)
          \<noteq> js ''youtube.com/watch?v=''"
      by (simp add: js_def)
    have a': "take (length (js ''youtu.be/'')) (js ''youtube.com/embed/'' @ run @ rest)
          \<noteq> js ''youtu.be/''"
      by (simp add: js_def)
    have b: "take (length (js ''youtube.com/embed/'')) (js ''youtube.com/embed/'' @ run @ rest)
          = js ''youtube.com/embed/''"
      by simp
    show ?thesis using a a' b t assms(2) unfolding 3 url_prefixes_def by simp
  qed
qed

lemma match_url_law:
  assumes "0x79 \<notin> set pre"
    and "p \<in> {js ''youtube.com/watch?v='', js ''youtu.be/'', js ''youtube.com/embed/''}"
    and "run \<noteq> []" and "\<forall>c\<in>set run. c \<notin> {0x26, 0x0A, 0x3F, 0x23}"
    and "rest = [] \<or> hd rest \<in> {0x26, 0x0A, 0x3F, 0x23}"
  shows "match_url (pre @ p @ run @ rest) = Some run"
proof -
  have r: "\<forall>c\<in>set run. id_char c" using assms(4) by (simp add: id_char_def)
  have e: "rest = [] \<or> \<not> id_char (hd rest)" using assms(5) by (auto simp: id_char_def)
  have h: "match_here url_prefixes (p @ run @ rest) = Some run"
    using assms(2,3) r e by (rule match_here_prefix)
  have ne: "p @ run @ rest \<noteq> []" using assms(3) by simp
  then obtain c cs where s: "p @ run @ rest = c # cs" by (cases "p @ run @ rest") auto
  have "match_url (p @ run @ rest) = Some run"
    using h unfolding s by simp
  then show ?thesis using match_url_skip [OF assms(1) ne] by simp
qed

lemma match_direct_iff:
  "match_direct url = Some v \<longleftrightarrow>
     v = url \<and> length url = 11
     \<and> (\<forall>c\<in>set url. (0x61 \<le> c \<and> c \<le> 0x7A) \<or> (0x41 \<le> c \<and> c \<le> 0x5A)
            \<or> (0x30 \<le> c \<and> c \<le> 0x39) \<or> c = 0x5F \<or> c = 0x2D)"
  by (auto simp: match_direct_def id_word_def list_all_iff)

text \<open>
  C5. The short link, the watch link, the embed link and the bare identifier all
  give \<open>dQw4w9WgXcQ\<close>; \<open>not a url\<close> and \<open>hello world\<close>, which has eleven code
  units, raise the error. The URL pattern is tried first and its match wins; the
  bare pattern is tried only when the URL pattern finds nothing, and it accepts
  exactly the strings of eleven code units that are ASCII letters, digits,
  hyphens or underscores, giving the string itself. The URL pattern finds the
  leftmost of \<open>youtube.com/watch?v=\<close>, \<open>youtu.be/\<close> and \<open>youtube.com/embed/\<close> that
  is followed by a code unit other than \<open>&\<close>, newline, \<open>?\<close> and \<open>#\<close>, and gives the
  longest run of such code units after it.
\<close>

theorem extractVideoId_patterns:
  "extractVideoId (js ''https://youtu.be/dQw4w9WgXcQ'') = Inr (js ''dQw4w9WgXcQ'')
   \<and> extractVideoId (js ''https://www.youtube.com/watch?v=dQw4w9WgXcQ'') = Inr (js ''dQw4w9WgXcQ'')
   \<and> extractVideoId (js ''https://www.youtube.com/embed/dQw4w9WgXcQ'') = Inr (js ''dQw4w9WgXcQ'')
   \<and> extractVideoId (js ''dQw4w9WgXcQ'') = Inr (js ''dQw4w9WgXcQ'')
   \<and> extractVideoId (js ''not a url'') = Inl InvalidYouTubeUrlFormat
   \<and> extractVideoId (js ''hello world'') = Inl InvalidYouTubeUrlFormat
   \<and> (match_url url = Some v \<longrightarrow> extractVideoId url = Inr v)
   \<and> (match_url url = None \<longrightarrow>
        extractVideoId url =
          (case match_direct url of Some v \<Rightarrow> Inr v | None \<Rightarrow> Inl InvalidYouTubeUrlFormat))
   \<and> (match_direct url = Some v \<longleftrightarrow>
        v = url \<and> length url = 11
        \<and> (\<forall>c\<in>set url. (0x61 \<le> c \<and> c \<le> 0x7A) \<or> (0x41 \<le> c \<and> c \<le> 0x5A)
               \<or> (0x30 \<le> c \<and> c \<le> 0x39) \<or> c = 0x5F \<or> c = 0x2D))
   \<and> (0x79 \<notin> set pre
        \<and> p \<in> {js ''youtube.com/watch?v='', js ''youtu.be/'', js ''youtube.com/embed/''}
        \<and> run \<noteq> [] \<and> (\<forall>c\<in>set run. c \<notin> {0x26, 0x0A, 0x3F, 0x23})
        \<and> (rest = [] \<or> hd rest \<in> {0x26, 0x0A, 0x3F, 0x23})
      \<longrightarrow> match_url (pre @ p @ run @ rest) = Some run
          \<and> extractVideoId (pre @ p @ run @ rest) = Inr run)"
proof (intro conjI impI)
  show "extractVideoId (js ''https://youtu.be/dQw4w9WgXcQ'') = Inr (js ''dQw4w9WgXcQ'')"
    by (simp add: extractVideoId_def patterns_def url_prefixes_def js_def id_char_def
        match_direct_def id_word_def)
  show "extractVideoId (js ''https://www.youtube.com/watch?v=dQw4w9WgXcQ'') = Inr (js ''dQw4w9WgXcQ'')"
    by (simp add: extractVideoId_def patterns_def url_prefixes_def js_def id_char_def
        match_direct_def id_word_def)
  show "extractVideoId (js ''https://www.youtube.com/embed/dQw4w9WgXcQ'') = Inr (js ''dQw4w9WgXcQ'')"
    by (simp add: extractVideoId_def patterns_def url_prefixes_def js_def id_char_def
        match_direct_def id_word_def)
  show "extractVideoId (js ''dQw4w9WgXcQ'') = Inr (js ''dQw4w9WgXcQ'')"
    by (simp add: extractVideoId_def patterns_def url_prefixes_def js_def id_char_def
        match_direct_def id_word_def)
  show "extractVideoId (js ''not a url'') = Inl InvalidYouTubeUrlFormat"
    by (simp add: extractVideoId_def patterns_def url_prefixes_def js_def id_char_def
        match_direct_def id_word_def)
  show "extractVideoId (js ''hello world'') = Inl InvalidYouTubeUrlFormat"
    by (simp add: extractVideoId_def patterns_def url_prefixes_def js_def id_char_def
        match_direct_def id_word_def)
next
  assume "match_url url = Some v"
  then show "extractVideoId url = Inr v"
    by (simp add: extractVideoId_def patterns_def)
next
  assume "match_url url = None"
  then show "extractVideoId url =
          (case match_direct url of Some v \<Rightarrow> Inr v | None \<Rightarrow> Inl InvalidYouTubeUrlFormat)"
    by (simp add: extractVideoId_def patterns_def split: option.splits)
next
  show "match_direct url = Some v \<longleftrightarrow>
        v = url \<and> length url = 11
        \<and> (\<forall>c\<in>set url. (0x61 \<le> c \<and> c \<le> 0x7A) \<or> (0x41 \<le> c \<and> c \<le> 0x5A)
               \<or> (0x30 \<le> c \<and> c \<le> 0x39) \<or> c = 0x5F \<or> c = 0x2D)"
    by (rule match_direct_iff)
next
  assume h: "0x79 \<notin> set pre
        \<and> p \<in> {js ''youtube.com/watch?v='', js ''youtu.be/'', js ''youtube.com/embed/''}
        \<and> run \<noteq> [] \<and> (\<forall>c\<in>set run. c \<notin> {0x26, 0x0A, 0x3F, 0x23})
        \<and> (rest = [] \<or> hd rest \<in> {0x26, 0x0A, 0x3F, 0x23})"
  then show m: "match_url (pre @ p @ run @ rest) = Some run"
    by (intro match_url_law) simp_all
  then show "extractVideoId (pre @ p @ run @ rest) = Inr run"
    by (simp add: extractVideoId_def patterns_def)
qed

theorem extractVideoId_patterns_witness:
  "match_url (js ''https://youtu.be/dQw4w9WgXcQ?t=42'') = Some (js ''dQw4w9WgXcQ'')
   \<and> extractVideoId (js ''https://youtu.be/dQw4w9WgXcQ?t=42'') = Inr (js ''dQw4w9WgXcQ'')
   \<and> match_url (js ''dQw4w9WgXc'') = None
   \<and> extractVideoId (js ''dQw4w9WgXc'') = Inl InvalidYouTubeUrlFormat
   \<and> match_direct (js ''dQw4w9WgXc!'') = None
   \<and> match_direct (js ''dQw4w9W_Xc-'') = Some (js ''dQw4w9W_Xc-'')
   \<and> extractVideoId (js ''https://www.'' @ js ''youtube.com/watch?v='' @ js ''a b=c'' @ js ''&t=42s'')
       = Inr (js ''a b=c'')"
proof -
  have a: "match_url (js ''https://youtu.be/dQw4w9WgXcQ?t=42'') = Some (js ''dQw4w9WgXcQ'')"
    by (simp add: extractVideoId_def patterns_def url_prefixes_def js_def id_char_def
        match_direct_def id_word_def)
  have b: "match_url (js ''dQw4w9WgXc'') = None"
    by (simp add: extractVideoId_def patterns_def url_prefixes_def js_def id_char_def
        match_direct_def id_word_def)
  have c: "match_direct (js ''dQw4w9WgXc'') = None"
    by (simp add: extractVideoId_def patterns_def url_prefixes_def js_def id_char_def
        match_direct_def id_word_def)
  note g = extractVideoId_patterns [THEN conjunct2, THEN conjunct2, THEN conjunct2,
      THEN conjunct2, THEN conjunct2, THEN conjunct2]
  note g1 = g [THEN conjunct1, rule_format]
  note g2 = g [THEN conjunct2, THEN conjunct1, rule_format]
  note g3 = g [THEN conjunct2, THEN conjunct2, THEN conjunct1]
  note g4 = g [THEN conjunct2, THEN conjunct2, THEN conjunct2, rule_format]
  have d: "match_direct (js ''dQw4w9WgXc!'') = None"
  proof (cases "match_direct (js ''dQw4w9WgXc!'')")
    case None
    then show ?thesis .
  next
    case (Some v)
    then show ?thesis
      using g3 [of "js ''dQw4w9WgXc!''" v] by (simp add: js_def)
  qed
  have e: "match_direct (js ''dQw4w9W_Xc-'') = Some (js ''dQw4w9W_Xc-'')"
    unfolding g3 by (simp add: js_def)
  have f: "extractVideoId (js ''https://www.'' @ js ''youtube.com/watch?v='' @ js ''a b=c'' @ js ''&t=42s'')
       = Inr (js ''a b=c'')"
    by (rule g4 [THEN conjunct2]) (simp add: js_def)
  have x: "extractVideoId (js ''https://youtu.be/dQw4w9WgXcQ?t=42'') = Inr (js ''dQw4w9WgXcQ'')"
    using a by (rule g1)
  have y: "extractVideoId (js ''dQw4w9WgXc'') = Inl InvalidYouTubeUrlFormat"
    using g2 [OF b] c by simp
  show ?thesis
    using a b d e f x y by simp
qed

section \<open>Choice of the main content\<close>

lemma pick_content_ge: "length content \<le> length (pick_content pg sels content)"
proof (induction sels arbitrary: content)
  case Nil
  then show ?case by simp
next
  case (Cons sel sels)
  show ?case
  proof (cases "pg_count pg sel > 0 \<and> length (trim (pg_text pg sel)) > length content")
    case True
    then show ?thesis
      using Cons.IH [of "trim (pg_text pg sel)"] by auto
  next
    case False
    then show ?thesis using Cons.IH [of content] by auto
  qed
qed

lemma pick_content_max:
  "sel \<in> set sels \<Longrightarrow> pg_count pg sel > 0
     \<Longrightarrow> length (trim (pg_text pg sel)) \<le> length (pick_content pg sels content)"
proof (induction sels arbitrary: content)
  case Nil
  then show ?case by simp
next
  case (Cons s sels)
  show ?case
  proof (cases "sel = s")
    case True
    show ?thesis
    proof (cases "length (trim (pg_text pg s)) > length content")
      case True
      then show ?thesis
        using Cons.prems \<open>sel = s\<close> pick_content_ge [of "trim (pg_text pg s)" pg sels] by simp
    next
      case False
      then show ?thesis
        using Cons.prems \<open>sel = s\<close> pick_content_ge [of content pg sels] by simp
    qed
  next
    case False
    then have "sel \<in> set sels" using Cons.prems by simp
    then show ?thesis
      using Cons.IH [OF _ Cons.prems(2)] by simp
  qed
qed

lemma pick_content_source:
  "pick_content pg sels content = content
   \<or> (\<exists>sel\<in>set sels. pg_count pg sel > 0 \<and> pick_content pg sels content = trim (pg_text pg sel))"
proof (induction sels arbitrary: content)
  case Nil
  then show ?case by simp
next
  case (Cons s sels)
  show ?case
  proof (cases "pg_count pg s > 0 \<and> length (trim (pg_text pg s)) > length content")
    case True
    then show ?thesis
      using Cons.IH [of "trim (pg_text pg s)"] by auto
  next
    case False
    then show ?thesis using Cons.IH [of content] by auto
  qed
qed

lemma pick_content_keep:
  "\<forall>sel\<in>set sels. pg_count pg sel > 0 \<longrightarrow> length (trim (pg_text pg sel)) \<le> length content
     \<Longrightarrow> pick_content pg sels content = content"
  by (induction sels arbitrary: content) auto

lemma pick_content_first:
  assumes "pg_count pg sel > 0" and "trim (pg_text pg sel) \<noteq> []"
    and "\<forall>s\<in>set sels. pg_count pg s > 0 \<longrightarrow> length (trim (pg_text pg s)) \<le> length (trim (pg_text pg sel))"
  shows "pick_content pg (sel # sels) [] = trim (pg_text pg sel)"
  using assms by (simp add: pick_content_keep)

lemma extract_long_pick:
  assumes "100 \<le> length (pick_content (load html) mainSelectors [])"
  shows "ex_content (extractMainContent load html url) =
           trim (collapse_ws (pick_content (load html) mainSelectors []))"
proof -
  have "pick_content (load html) mainSelectors [] \<noteq> []" using assms by auto
  then show ?thesis
    using assms by (simp add: extractMainContent_def Let_def)
qed


lemma trim_rtrim: "trim s = rtrim (dropWhile is_space s)"
  by (simp add: trim_def rtrim_def)

lemma rtrim_Cons:
  "rtrim (x # A) = (if list_all is_space A then (if is_space x then [] else [x]) else x # rtrim A)"
  by (auto simp: rtrim_def dropWhile_append list_all_iff)

lemma rtrim_Nil_iff: "rtrim A = [] \<longleftrightarrow> list_all is_space A"
  by (simp add: rtrim_def dropWhile_eq_Nil_conv list_all_iff)

lemma rtrim_Cons_cong: "rtrim A = rtrim B \<Longrightarrow> rtrim (x # A) = rtrim (x # B)"
  by (metis rtrim_Cons rtrim_Nil_iff)

lemma rtrim_Cons_nonspace: "\<not> is_space c \<Longrightarrow> rtrim (c # cs) = c # rtrim cs"
  by (metis rtrim_Cons rtrim_Nil_iff)

lemma dropWhile_all_space: "list_all is_space cs \<Longrightarrow> dropWhile is_space cs = []"
  by (simp add: dropWhile_eq_Nil_conv list_all_iff)

lemma list_all_dropWhile_space: "list_all is_space (dropWhile is_space cs) = list_all is_space cs"
  by (induction cs) auto

lemma space_20: "is_space 0x20"
  by (simp add: is_space_def)

lemma collapse_ws_head:
  "u = [] \<or> \<not> is_space (hd u) \<Longrightarrow> dropWhile is_space (collapse_ws u) = collapse_ws u"
  by (cases u) auto

lemma dropWhile_head: "dropWhile is_space cs = [] \<or> \<not> is_space (hd (dropWhile is_space cs))"
  by (metis hd_dropWhile)

lemma dropWhile_collapse_ws:
  "dropWhile is_space (collapse_ws t) = collapse_ws (dropWhile is_space t)"
proof (cases t)
  case Nil
  then show ?thesis by simp
next
  case (Cons c cs)
  show ?thesis
  proof (cases "is_space c")
    case True
    then show ?thesis
      using collapse_ws_head [OF dropWhile_head, of cs] by (simp add: Cons space_20)
  next
    case False
    then show ?thesis by (simp add: Cons)
  qed
qed

lemma dropWhile_rtrim: "dropWhile is_space (rtrim s) = rtrim (dropWhile is_space s)"
proof (induction s)
  case Nil
  then show ?case by (simp add: rtrim_def)
next
  case (Cons c cs)
  show ?case
  proof (cases "is_space c")
    case True
    show ?thesis
    proof (cases "list_all is_space cs")
      case True
      then show ?thesis
        using \<open>is_space c\<close> by (simp add: rtrim_Cons dropWhile_all_space) (simp add: rtrim_def)
    next
      case False
      then show ?thesis
        using \<open>is_space c\<close> Cons.IH by (simp add: rtrim_Cons)
    qed
  next
    case False
    then show ?thesis by (simp add: rtrim_Cons_nonspace)
  qed
qed

lemma rtrim_collapse_ws: "rtrim (collapse_ws s) = rtrim (collapse_ws (rtrim s))"
proof (induction s rule: collapse_ws.induct)
  case 1
  then show ?case by (simp add: rtrim_def)
next
  case (2 c cs)
  show ?case
  proof (cases "is_space c")
    case sp: True
    show ?thesis
    proof (cases "list_all is_space cs")
      case True
      then have "rtrim (c # cs) = []" using sp by (simp add: rtrim_Cons)
      moreover have "collapse_ws (c # cs) = [0x20]"
        using sp True by (simp add: dropWhile_all_space)
      ultimately show ?thesis by (simp add: rtrim_Cons space_20) (simp add: rtrim_def)
    next
      case False
      then have r: "rtrim (c # cs) = c # rtrim cs" by (simp add: rtrim_Cons)
      have "collapse_ws (c # rtrim cs) = 0x20 # collapse_ws (rtrim (dropWhile is_space cs))"
        using sp by (simp add: dropWhile_rtrim)
      moreover have "collapse_ws (c # cs) = 0x20 # collapse_ws (dropWhile is_space cs)"
        using sp by simp
      moreover have "rtrim (0x20 # collapse_ws (dropWhile is_space cs))
                     = rtrim (0x20 # collapse_ws (rtrim (dropWhile is_space cs)))"
        using "2.IH"(1) [OF sp] by (rule rtrim_Cons_cong)
      ultimately show ?thesis
        using r by simp
    qed
  next
    case False
    then have r: "rtrim (c # cs) = c # rtrim cs" by (rule rtrim_Cons_nonspace)
    have "rtrim (c # collapse_ws cs) = rtrim (c # collapse_ws (rtrim cs))"
      using "2.IH"(2) [OF False] by (rule rtrim_Cons_cong)
    then show ?thesis
      using False r by simp
  qed
qed

lemma dropWhile_idem: "dropWhile is_space (dropWhile is_space t) = dropWhile is_space t"
  using dropWhile_head [of t] by (cases "dropWhile is_space t") auto

lemma trim_collapse_trim: "trim (collapse_ws (trim t)) = trim (collapse_ws t)"
proof -
  have "trim (collapse_ws (trim t))
        = rtrim (collapse_ws (dropWhile is_space (rtrim (dropWhile is_space t))))"
    by (simp add: trim_rtrim dropWhile_collapse_ws)
  also have "\<dots> = rtrim (collapse_ws (rtrim (dropWhile is_space t)))"
    by (simp add: dropWhile_rtrim dropWhile_idem)
  also have "\<dots> = rtrim (collapse_ws (dropWhile is_space t))"
    by (rule rtrim_collapse_ws [symmetric])
  also have "\<dots> = trim (collapse_ws t)"
    by (simp add: trim_rtrim dropWhile_collapse_ws)
  finally show ?thesis .
qed


lemma sample_text_trim:
  "trim sample_text = js ''The quick brown fox  jumps over\<newline>the lazy dog. The quick brown fox  jumps over\<newline>the lazy dog. The quick brown fox  jumps over\<newline>the lazy dog.''"
  by code_simp

lemma sample_text_clean:
  "trim (collapse_ws sample_text) = js ''The quick brown fox jumps over the lazy dog. The quick brown fox jumps over the lazy dog. The quick brown fox jumps over the lazy dog.''"
  by code_simp

lemma pick_content_choice:
  "(pick_content pg sels content = content
      \<and> (\<forall>j<length sels. pg_count pg (sels ! j) > 0 \<longrightarrow>
             length (trim (pg_text pg (sels ! j))) \<le> length content))
   \<or> (\<exists>i<length sels. pg_count pg (sels ! i) > 0
         \<and> pick_content pg sels content = trim (pg_text pg (sels ! i))
         \<and> length content < length (pick_content pg sels content)
         \<and> (\<forall>j<i. pg_count pg (sels ! j) > 0 \<longrightarrow>
               length (trim (pg_text pg (sels ! j))) < length (pick_content pg sels content)))"
proof (induction sels arbitrary: content)
  case Nil
  then show ?case by simp
next
  case (Cons s sels)
  let ?t = "trim (pg_text pg s)"
  show ?case
  proof (cases "pg_count pg s > 0 \<and> length ?t > length content")
    case True
    then have step: "pick_content pg (s # sels) content = pick_content pg sels ?t" by simp
    from Cons.IH [of ?t] show ?thesis
    proof
      assume a: "pick_content pg sels ?t = ?t
        \<and> (\<forall>j<length sels. pg_count pg (sels ! j) > 0 \<longrightarrow>
               length (trim (pg_text pg (sels ! j))) \<le> length ?t)"
      have "0 < length (s # sels) \<and> pg_count pg ((s # sels) ! 0) > 0
         \<and> pick_content pg (s # sels) content = trim (pg_text pg ((s # sels) ! 0))
         \<and> length content < length (pick_content pg (s # sels) content)
         \<and> (\<forall>j<0. pg_count pg ((s # sels) ! j) > 0 \<longrightarrow>
               length (trim (pg_text pg ((s # sels) ! j)))
                 < length (pick_content pg (s # sels) content))"
        using True a step by simp
      then show ?thesis by blast
    next
      assume "\<exists>i<length sels. pg_count pg (sels ! i) > 0
         \<and> pick_content pg sels ?t = trim (pg_text pg (sels ! i))
         \<and> length ?t < length (pick_content pg sels ?t)
         \<and> (\<forall>j<i. pg_count pg (sels ! j) > 0 \<longrightarrow>
               length (trim (pg_text pg (sels ! j))) < length (pick_content pg sels ?t))"
      then obtain i where i: "i < length sels" "pg_count pg (sels ! i) > 0"
        "pick_content pg sels ?t = trim (pg_text pg (sels ! i))"
        "length ?t < length (pick_content pg sels ?t)"
        "\<forall>j<i. pg_count pg (sels ! j) > 0 \<longrightarrow>
               length (trim (pg_text pg (sels ! j))) < length (pick_content pg sels ?t)"
        by blast
      have e: "\<forall>j<Suc i. pg_count pg ((s # sels) ! j) > 0 \<longrightarrow>
               length (trim (pg_text pg ((s # sels) ! j)))
                 < length (pick_content pg (s # sels) content)"
      proof (intro allI impI)
        fix j assume "j < Suc i" and "pg_count pg ((s # sels) ! j) > 0"
        then show "length (trim (pg_text pg ((s # sels) ! j)))
                 < length (pick_content pg (s # sels) content)"
          using i(4,5) step by (cases j) simp_all
      qed
      have "Suc i < length (s # sels) \<and> pg_count pg ((s # sels) ! Suc i) > 0
         \<and> pick_content pg (s # sels) content = trim (pg_text pg ((s # sels) ! Suc i))
         \<and> length content < length (pick_content pg (s # sels) content)"
        using i True step by simp
      with e show ?thesis by blast
    qed
  next
    case False
    then have step: "pick_content pg (s # sels) content = pick_content pg sels content" by auto
    have short: "pg_count pg s > 0 \<longrightarrow> length ?t \<le> length content" using False by auto
    from Cons.IH [of content] show ?thesis
    proof
      assume a: "pick_content pg sels content = content
        \<and> (\<forall>j<length sels. pg_count pg (sels ! j) > 0 \<longrightarrow>
               length (trim (pg_text pg (sels ! j))) \<le> length content)"
      have "\<forall>j<length (s # sels). pg_count pg ((s # sels) ! j) > 0 \<longrightarrow>
               length (trim (pg_text pg ((s # sels) ! j))) \<le> length content"
      proof (intro allI impI)
        fix j assume "j < length (s # sels)" and "pg_count pg ((s # sels) ! j) > 0"
        then show "length (trim (pg_text pg ((s # sels) ! j))) \<le> length content"
          using a short by (cases j) simp_all
      qed
      then show ?thesis using a step by simp
    next
      assume "\<exists>i<length sels. pg_count pg (sels ! i) > 0
         \<and> pick_content pg sels content = trim (pg_text pg (sels ! i))
         \<and> length content < length (pick_content pg sels content)
         \<and> (\<forall>j<i. pg_count pg (sels ! j) > 0 \<longrightarrow>
               length (trim (pg_text pg (sels ! j))) < length (pick_content pg sels content))"
      then obtain i where i: "i < length sels" "pg_count pg (sels ! i) > 0"
        "pick_content pg sels content = trim (pg_text pg (sels ! i))"
        "length content < length (pick_content pg sels content)"
        "\<forall>j<i. pg_count pg (sels ! j) > 0 \<longrightarrow>
               length (trim (pg_text pg (sels ! j))) < length (pick_content pg sels content)"
        by blast
      have e: "\<forall>j<Suc i. pg_count pg ((s # sels) ! j) > 0 \<longrightarrow>
               length (trim (pg_text pg ((s # sels) ! j)))
                 < length (pick_content pg (s # sels) content)"
      proof (intro allI impI)
        fix j assume "j < Suc i" and "pg_count pg ((s # sels) ! j) > 0"
        then show "length (trim (pg_text pg ((s # sels) ! j)))
                 < length (pick_content pg (s # sels) content)"
          using i(4,5) step short by (cases j) auto
      qed
      have "Suc i < length (s # sels) \<and> pg_count pg ((s # sels) ! Suc i) > 0
         \<and> pick_content pg (s # sels) content = trim (pg_text pg ((s # sels) ! Suc i))
         \<and> length content < length (pick_content pg (s # sels) content)"
        using i step by simp
      with e show ?thesis by blast
    qed
  qed
qed

lemma pick_content_first_longest:
  "pick_content pg sels [] = []
   \<or> (\<exists>i<length sels. pg_count pg (sels ! i) > 0
         \<and> pick_content pg sels [] = trim (pg_text pg (sels ! i))
         \<and> (\<forall>j<i. pg_count pg (sels ! j) > 0 \<longrightarrow>
               length (trim (pg_text pg (sels ! j))) < length (pick_content pg sels [])))"
  using pick_content_choice [of pg sels "[]"] by blast

lemma extract_short_pick:
  assumes "length (pick_content (load html) mainSelectors []) < 100"
    and "paras = join (js ''\<newline>\<newline>'') (map trim (pg_paragraphs (load html)))"
  shows "100 \<le> length paras \<Longrightarrow>
           ex_content (extractMainContent load html url) = trim (collapse_ws paras)"
    and "length paras < 100 \<Longrightarrow>
           ex_content (extractMainContent load html url) = trim (collapse_ws (pg_body (load html)))"
proof -
  show "100 \<le> length paras \<Longrightarrow>
           ex_content (extractMainContent load html url) = trim (collapse_ws paras)"
  proof -
    assume l: "100 \<le> length paras"
    then have "paras \<noteq> []" by auto
    then show ?thesis
      using assms l by (simp add: extractMainContent_def Let_def)
  qed
  show "length paras < 100 \<Longrightarrow>
           ex_content (extractMainContent load html url) = trim (collapse_ws (pg_body (load html)))"
    using assms by (simp add: extractMainContent_def Let_def trim_collapse_trim)
qed

lemma extract_title:
  "ex_title (extractMainContent load html url)
     = (if trim (pg_title (load html)) = [] then url else trim (pg_title (load html)))"
  "ex_url (extractMainContent load html url) = url"
  by (simp_all add: extractMainContent_def Let_def)

lemma para_page_values:
  "pick_content para_page mainSelectors [] = js ''Teaser one''"
  "join (js ''\<newline>\<newline>'') (map trim (pg_paragraphs para_page))
     = js ''The first paragraph of the story has  more than fifty characters in it.\<newline>\<newline>The second paragraph of the story also has more than fifty characters.''"
  "trim (collapse_ws (js ''The first paragraph of the story has  more than fifty characters in it.\<newline>\<newline>The second paragraph of the story also has more than fifty characters.''))
     = js ''The first paragraph of the story has more than fifty characters in it. The second paragraph of the story also has more than fifty characters.''"
  "trim (pg_title para_page) = js ''Story''"
  by code_simp+

lemma short_page_values:
  "pick_content short_page mainSelectors []
     = js ''A main element with less than a hundred characters.''"
  "join (js ''\<newline>\<newline>'') (map trim (pg_paragraphs short_page)) = js ''Intro.''"
  "trim (collapse_ws (pg_body short_page))
     = js ''Intro.A main element with less than a hundred characters.''"
  by code_simp+

text \<open>
  C6 (as amended). The loop keeps the longest trimmed text among the selectors
  that match, never a shorter one, and among equals the one of the earliest
  selector in the list: every matching selector before the kept one has a
  strictly shorter trimmed text. When the kept text has at least 100 characters,
  the content is that text with every run of white space collapsed to one space,
  trimmed; so when \<open>main\<close> matches, its trimmed text has at least 100 characters
  and no other matching selector has a longer one, the content is the text of
  \<open>main\<close>, collapsed and trimmed. When the kept text has fewer than 100
  characters, it is replaced: by the trimmed texts of the paragraphs, joined by
  blank lines, when they have at least 100 characters together, and by the text
  of the body otherwise; the replacement is collapsed and trimmed in the same
  way. The title is the trimmed text of the title element, or the URL when that
  is empty.
\<close>

theorem extractMainContent_longest:
  assumes "pg = load html" and "picked = pick_content pg mainSelectors []"
    and "paras = join (js ''\<newline>\<newline>'') (map trim (pg_paragraphs pg))"
  shows \<open>(\<forall>sel\<in>set mainSelectors. pg_count pg sel > 0 \<longrightarrow>
            length (trim (pg_text pg sel)) \<le> length picked)
    \<and> (picked = [] \<or> (\<exists>sel\<in>set mainSelectors. pg_count pg sel > 0 \<and> picked = trim (pg_text pg sel)))
    \<and> (100 \<le> length picked \<longrightarrow>
          ex_content (extractMainContent load html url) = trim (collapse_ws picked))
    \<and> (pg_count pg ''main'' > 0 \<and> 100 \<le> length (trim (pg_text pg ''main''))
        \<and> (\<forall>sel\<in>set mainSelectors. pg_count pg sel > 0 \<longrightarrow>
              length (trim (pg_text pg sel)) \<le> length (trim (pg_text pg ''main'')))
        \<longrightarrow> ex_content (extractMainContent load html url) = trim (collapse_ws (pg_text pg ''main'')))
    \<and> (picked = []
        \<or> (\<exists>i<length mainSelectors. pg_count pg (mainSelectors ! i) > 0
              \<and> picked = trim (pg_text pg (mainSelectors ! i))
              \<and> (\<forall>j<i. pg_count pg (mainSelectors ! j) > 0 \<longrightarrow>
                    length (trim (pg_text pg (mainSelectors ! j))) < length picked)))
    \<and> mainSelectors =
        [''main'', ''[role="main"]'', ''.main-content'', ''.content'', ''.post-content'',
         ''.article-content'', ''.entry-content'', ''article'', ''.article-body'']
    \<and> (length picked < 100 \<and> 100 \<le> length paras \<longrightarrow>
          ex_content (extractMainContent load html url) = trim (collapse_ws paras))
    \<and> (length picked < 100 \<and> length paras < 100 \<longrightarrow>
          ex_content (extractMainContent load html url) = trim (collapse_ws (pg_body pg)))
    \<and> ex_title (extractMainContent load html url)
        = (if trim (pg_title pg) = [] then url else trim (pg_title pg))
    \<and> ex_url (extractMainContent load html url) = url\<close>
proof (intro conjI impI)
  show "\<forall>sel\<in>set mainSelectors. pg_count pg sel > 0 \<longrightarrow>
            length (trim (pg_text pg sel)) \<le> length picked"
    unfolding assms(2) using pick_content_max by blast
next
  show "picked = [] \<or> (\<exists>sel\<in>set mainSelectors. pg_count pg sel > 0 \<and> picked = trim (pg_text pg sel))"
    unfolding assms(2) by (rule pick_content_source)
next
  assume "100 \<le> length picked"
  then show "ex_content (extractMainContent load html url) = trim (collapse_ws picked)"
    unfolding assms(2) assms(1) by (rule extract_long_pick)
next
  assume h: "pg_count pg ''main'' > 0 \<and> 100 \<le> length (trim (pg_text pg ''main''))
        \<and> (\<forall>sel\<in>set mainSelectors. pg_count pg sel > 0 \<longrightarrow>
              length (trim (pg_text pg sel)) \<le> length (trim (pg_text pg ''main'')))"
  have ms: "mainSelectors = ''main'' # tl mainSelectors"
    by (simp add: mainSelectors_def)
  have "\<forall>s\<in>set (tl mainSelectors). pg_count pg s > 0 \<longrightarrow>
          length (trim (pg_text pg s)) \<le> length (trim (pg_text pg ''main''))"
    using h by (metis list.set_sel(2) ms list.discI)
  moreover have "trim (pg_text pg ''main'') \<noteq> []" using h by auto
  ultimately have "pick_content pg (''main'' # tl mainSelectors) [] = trim (pg_text pg ''main'')"
    using h pick_content_first [of pg "''main''" "tl mainSelectors"] by blast
  then have p: "pick_content (load html) mainSelectors [] = trim (pg_text pg ''main'')"
    using ms assms(1) by simp
  then have "100 \<le> length (pick_content (load html) mainSelectors [])" using h by simp
  then have "ex_content (extractMainContent load html url)
             = trim (collapse_ws (pick_content (load html) mainSelectors []))"
    by (rule extract_long_pick)
  then show "ex_content (extractMainContent load html url) = trim (collapse_ws (pg_text pg ''main''))"
    by (simp add: p trim_collapse_trim)
next
  show "picked = []
        \<or> (\<exists>i<length mainSelectors. pg_count pg (mainSelectors ! i) > 0
              \<and> picked = trim (pg_text pg (mainSelectors ! i))
              \<and> (\<forall>j<i. pg_count pg (mainSelectors ! j) > 0 \<longrightarrow>
                    length (trim (pg_text pg (mainSelectors ! j))) < length picked))"
    unfolding assms(2) by (rule pick_content_first_longest)
next
  show \<open>mainSelectors =
        [''main'', ''[role="main"]'', ''.main-content'', ''.content'', ''.post-content'',
         ''.article-content'', ''.entry-content'', ''article'', ''.article-body'']\<close>
    by (simp add: mainSelectors_def)
next
  assume "length picked < 100 \<and> 100 \<le> length paras"
  then show "ex_content (extractMainContent load html url) = trim (collapse_ws paras)"
    using extract_short_pick(1) [of load html paras url] assms by simp
next
  assume "length picked < 100 \<and> length paras < 100"
  then show "ex_content (extractMainContent load html url) = trim (collapse_ws (pg_body pg))"
    using extract_short_pick(2) [of load html paras url] assms by simp
next
  show "ex_title (extractMainContent load html url)
        = (if trim (pg_title pg) = [] then url else trim (pg_title pg))"
    unfolding assms(1) by (rule extract_title(1))
next
  show "ex_url (extractMainContent load html url) = url"
    by (rule extract_title(2))
qed

theorem extractMainContent_longest_witness:
  "pg_count sample_page ''main'' > 0 \<and> 100 \<le> length (trim (pg_text sample_page ''main''))
   \<and> pg_count sample_page ''.content'' > 0
   \<and> length (trim (pg_text sample_page ''.content'')) < length (trim (pg_text sample_page ''main''))
   \<and> ex_content (extractMainContent (\<lambda>html. sample_page) (js ''<html>'') (js ''https://example.org/fox''))
       = js ''The quick brown fox jumps over the lazy dog. The quick brown fox jumps over the lazy dog. The quick brown fox jumps over the lazy dog.''
   \<and> pick_content para_page mainSelectors [] = js ''Teaser one''
   \<and> trim (pg_text para_page ''.article-body'') = js ''Teaser two''
   \<and> ex_content (extractMainContent (\<lambda>html. para_page) (js ''<html>'') (js ''https://example.org/p''))
       = js ''The first paragraph of the story has more than fifty characters in it. The second paragraph of the story also has more than fifty characters.''
   \<and> ex_title (extractMainContent (\<lambda>html. para_page) (js ''<html>'') (js ''https://example.org/p''))
       = js ''Story''
   \<and> ex_content (extractMainContent (\<lambda>html. short_page) (js ''<html>'') (js ''https://example.org/s''))
       = js ''Intro.A main element with less than a hundred characters.''
   \<and> ex_title (extractMainContent (\<lambda>html. short_page) (js ''<html>'') (js ''https://example.org/s''))
       = js ''https://example.org/s''"
proof -
  have t: "pg_text sample_page ''main'' = sample_text"
    "pg_text sample_page ''.content'' = js ''Related links''"
    "pg_count sample_page ''main'' = 1" "pg_count sample_page ''.content'' = 1"
    by (simp_all add: sample_page_def)
  have c: "trim (js ''Related links'') = js ''Related links''"
    by (simp add: trim_def js_def is_space_def)
  have l: "length (trim sample_text) = 137" "length (js ''Related links'') = 13"
    by (simp_all add: sample_text_trim js_def)
  have o: "\<forall>sel\<in>set mainSelectors. pg_count sample_page sel > 0 \<longrightarrow>
              length (trim (pg_text sample_page sel)) \<le> length (trim (pg_text sample_page ''main''))"
    by (simp add: mainSelectors_def sample_page_def c l)
  note s = extractMainContent_longest [of sample_page "\<lambda>html. sample_page" "js ''<html>''"
        "pick_content sample_page mainSelectors []"
        "join (js ''\<newline>\<newline>'') (map trim (pg_paragraphs sample_page))"
        "js ''https://example.org/fox''", OF refl refl refl]
  have w1: "ex_content (extractMainContent (\<lambda>html. sample_page) (js ''<html>'') (js ''https://example.org/fox''))
       = js ''The quick brown fox jumps over the lazy dog. The quick brown fox jumps over the lazy dog. The quick brown fox jumps over the lazy dog.''"
    using s [THEN conjunct2, THEN conjunct2, THEN conjunct2, THEN conjunct1] o t l sample_text_clean
    by simp
  note p = extractMainContent_longest [of para_page "\<lambda>html. para_page" "js ''<html>''"
        "pick_content para_page mainSelectors []"
        "join (js ''\<newline>\<newline>'') (map trim (pg_paragraphs para_page))"
        "js ''https://example.org/p''", OF refl refl refl, unfolded para_page_values]
  have pl: "length (js ''Teaser one'') < 100"
    "100 \<le> length (js ''The first paragraph of the story has  more than fifty characters in it.\<newline>\<newline>The second paragraph of the story also has more than fifty characters.'')"
    by (simp_all add: js_def)
  have w2: "ex_content (extractMainContent (\<lambda>html. para_page) (js ''<html>'') (js ''https://example.org/p''))
       = js ''The first paragraph of the story has more than fifty characters in it. The second paragraph of the story also has more than fifty characters.''"
    using p [THEN conjunct2, THEN conjunct2, THEN conjunct2, THEN conjunct2, THEN conjunct2,
        THEN conjunct2, THEN conjunct1] pl
    by simp
  have w3: "ex_title (extractMainContent (\<lambda>html. para_page) (js ''<html>'') (js ''https://example.org/p''))
       = js ''Story''"
    using p [THEN conjunct2, THEN conjunct2, THEN conjunct2, THEN conjunct2, THEN conjunct2,
        THEN conjunct2, THEN conjunct2, THEN conjunct2, THEN conjunct1]
    by (simp add: js_def)
  note q = extractMainContent_longest [of short_page "\<lambda>html. short_page" "js ''<html>''"
        "pick_content short_page mainSelectors []"
        "join (js ''\<newline>\<newline>'') (map trim (pg_paragraphs short_page))"
        "js ''https://example.org/s''", OF refl refl refl, unfolded short_page_values]
  have ql: "length (js ''A main element with less than a hundred characters.'') < 100"
    "length (js ''Intro.'') < 100"
    by (simp_all add: js_def)
  have w4: "ex_content (extractMainContent (\<lambda>html. short_page) (js ''<html>'') (js ''https://example.org/s''))
       = js ''Intro.A main element with less than a hundred characters.''"
    using q [THEN conjunct2, THEN conjunct2, THEN conjunct2, THEN conjunct2, THEN conjunct2,
        THEN conjunct2, THEN conjunct2, THEN conjunct1] ql
    by simp
  have st: "trim (pg_title short_page) = []"
    by (simp add: short_page_def trim_def)
  have w5: "ex_title (extractMainContent (\<lambda>html. short_page) (js ''<html>'') (js ''https://example.org/s''))
       = js ''https://example.org/s''"
    using q [THEN conjunct2, THEN conjunct2, THEN conjunct2, THEN conjunct2, THEN conjunct2,
        THEN conjunct2, THEN conjunct2, THEN conjunct2, THEN conjunct1] st
    by simp
  have w6: "trim (pg_text para_page ''.article-body'') = js ''Teaser two''"
    by (simp add: para_page_def trim_def js_def is_space_def)
  show ?thesis
    using w1 w2 w3 w4 w5 w6 t c l para_page_values(1) by simp
qed

text \<open>
  C6 as first stated fails below 100 characters: \<open>main\<close> is the only candidate,
  yet the content is the text of the body.
\<close>

theorem extractMainContent_counterexample:
  "map (pg_count short_page) mainSelectors = [1, 0, 0, 0, 0, 0, 0, 0, 0]
   \<and> trim (collapse_ws (pg_text short_page ''main''))
       = js ''A main element with less than a hundred characters.''
   \<and> ex_content (extractMainContent (\<lambda>html. short_page) (js ''<html>'') (js ''https://example.org/s''))
       = js ''Intro.A main element with less than a hundred characters.''
   \<and> ex_content (extractMainContent (\<lambda>html. short_page) (js ''<html>'') (js ''https://example.org/s''))
       \<noteq> trim (collapse_ws (pg_text short_page ''main''))"
  by code_simp

section \<open>Pages without content\<close>

text \<open>
  C7. When the text that the extraction yields for the fetched page has fewer
  than 50 characters, \<open>POST /extract\<close> answers with status 400 and the error
  \<open>No content found\<close>; no extracted content is returned.
\<close>

theorem extract_empty_content:
  assumes "url \<noteq> []" and "valid url" and "fetch url = Inr html"
    and "length (ex_content (extractMainContent load html url)) < 50"
  shows "extract_handler (Some url) valid fetch load now =
     \<lparr>statusCode = 400, headersSent = True, written = [],
      jsonBody = Some (ErrorBody (js ''No content found'')
        (Some (js ''Unable to extract meaningful content from the provided URL''))),
      ended = True\<rparr>"
  using assms
  by (simp add: extract_handler_def Let_def res_json_def res_status_def res_init_def)

lemma tiny_extracted:
  "extractMainContent (\<lambda>html. tiny_page) (js ''<html>'') (js ''https://example.org/app'') =
     \<lparr>ex_content = js ''Loading...'', ex_title = js ''https://example.org/app'',
      ex_url = js ''https://example.org/app''\<rparr>"
  by code_simp

theorem extract_empty_content_witness:
  "length (ex_content (extractMainContent (\<lambda>html. tiny_page) (js ''<html>'')
      (js ''https://example.org/app''))) < 50
   \<and> extract_handler (Some (js ''https://example.org/app'')) (\<lambda>u. True) (\<lambda>u. Inr (js ''<html>''))
       (\<lambda>html. tiny_page) (js ''2025-01-01T00:00:00.000Z'') =
     \<lparr>statusCode = 400, headersSent = True, written = [],
      jsonBody = Some (ErrorBody (js ''No content found'')
        (Some (js ''Unable to extract meaningful content from the provided URL''))),
      ended = True\<rparr>"
proof -
  have n: "js ''https://example.org/app'' \<noteq> []" by (simp add: js_def)
  have l: "length (ex_content (extractMainContent (\<lambda>html. tiny_page) (js ''<html>'')
      (js ''https://example.org/app''))) < 50"
    by (simp add: tiny_extracted) (simp add: js_def)
  show ?thesis
    using l extract_empty_content [OF n, of "\<lambda>u. True" "\<lambda>u. Inr (js ''<html>'')" "js ''<html>''"
        "\<lambda>html. tiny_page" "js ''2025-01-01T00:00:00.000Z''"]
    by simp
qed

section \<open>The summary type of the text summary route\<close>









lemma regex_Cons: "regex_test_ci p t \<Longrightarrow> regex_test_ci p (x # t)"
  by simp

























lemma escape_sample:
  "json_escape [0x61, 0x22, 0x5C, 0x0A, 0x09, 0x1F, 0x7F, 0xD83D, 0xDE00, 0xDE00, 0xD83D]
     = [0x61, 0x5C, 0x22, 0x5C, 0x5C, 0x5C, 0x6E, 0x5C, 0x74,
        0x5C, 0x75, 0x30, 0x30, 0x31, 0x66, 0x7F, 0xD83D, 0xDE00,
        0x5C, 0x75, 0x64, 0x65, 0x30, 0x30, 0x5C, 0x75, 0x64, 0x38, 0x33, 0x64]"
  by (simp add: escape_unit_def unicode_escape_def hex_digit_def is_high_def is_low_def)




section \<open>The transcript in the answer of the video summary\<close>

lemma transcript_preview_length:
  "length (transcript_preview ft) = (if length ft > 1000 then 1003 else length ft)"
  by (simp add: transcript_preview_def substring0_def js_def)

lemma video_answer:
  assumes "jsonBody (video_summarize_handler vf sf fetchTranscript llm) = Some (VideoBody v)"
  shows "\<exists>videoUrl videoId transcriptData.
           vf = Some videoUrl \<and> extractVideoId videoUrl = Inr videoId
           \<and> fetchTranscript videoId = Inr transcriptData
           \<and> vs_transcriptLength v = length (join (js '' '') (map seg_text transcriptData))
           \<and> vs_fullTranscript v
               = transcript_preview (join (js '' '') (map seg_text transcriptData))"
  using assms
  by (auto simp: video_summarize_handler_def Let_def res_json_def res_status_def res_init_def
      split: option.splits sum.splits if_splits)

lemma video_success:
  assumes "videoUrl \<noteq> []" and "extractVideoId videoUrl = Inr videoId"
    and "fetchTranscript videoId = Inr transcriptData"
    and "ft = join (js '' '') (map seg_text transcriptData)"
    and "ft \<noteq> []" and "10 \<le> length (trim ft)"
    and "llm (video_prompts (case sf of None \<Rightarrow> js ''concise'' | Some t \<Rightarrow> t) ft) = Inr answer"
  shows "answer_fullTranscript (video_summarize_handler (Some videoUrl) sf fetchTranscript llm)
           = Some (transcript_preview ft)
         \<and> statusCode (video_summarize_handler (Some videoUrl) sf fetchTranscript llm) = 200"
  using assms
  by (simp add: video_summarize_handler_def Let_def res_json_def res_init_def
      answer_fullTranscript_def)

lemma trim_no_space:
  assumes "s \<noteq> []" and "\<not> is_space (hd s)" and "\<not> is_space (last s)"
  shows "trim s = s"
proof -
  have a: "dropWhile is_space s = s"
    using assms(1,2) by (cases s) auto
  have "rev s \<noteq> []" "\<not> is_space (hd (rev s))"
    using assms(1,3) by (simp_all add: hd_rev)
  then have "dropWhile is_space (rev s) = rev s"
    by (cases "rev s") auto
  then show ?thesis by (simp add: trim_def a)
qed

text \<open>
  C9 (as amended). In every successful answer of the video summary route the
  field \<open>fullTranscript\<close> is the first 1000 characters of the transcript, followed
  by \<open>...\<close> when the transcript is longer than 1000 characters; so it has at most
  1003 characters, and exactly 1003 for every transcript longer than 1000.
\<close>

theorem video_fullTranscript_length:
  assumes "answer_fullTranscript (video_summarize_handler vf sf fetchTranscript llm) = Some t"
  shows "\<exists>videoUrl videoId transcriptData ft.
           vf = Some videoUrl \<and> extractVideoId videoUrl = Inr videoId
           \<and> fetchTranscript videoId = Inr transcriptData
           \<and> ft = join (js '' '') (map seg_text transcriptData)
           \<and> t = take 1000 ft @ (if length ft > 1000 then js ''...'' else [])
           \<and> length t = (if length ft > 1000 then 1003 else length ft)
           \<and> length t \<le> 1003"
proof -
  from assms obtain v where
    v: "jsonBody (video_summarize_handler vf sf fetchTranscript llm) = Some (VideoBody v)"
    and t: "t = vs_fullTranscript v"
    by (auto simp: answer_fullTranscript_def split: option.splits body.splits)
  from video_answer [OF v] obtain videoUrl videoId transcriptData where
    src: "vf = Some videoUrl" "extractVideoId videoUrl = Inr videoId"
      "fetchTranscript videoId = Inr transcriptData"
    and pv: "vs_fullTranscript v
              = transcript_preview (join (js '' '') (map seg_text transcriptData))"
    by blast
  let ?ft = "join (js '' '') (map seg_text transcriptData)"
  have eq: "t = take 1000 ?ft @ (if length ?ft > 1000 then js ''...'' else [])"
    using t pv by (simp add: transcript_preview_def substring0_def)
  have len: "length t = (if length ?ft > 1000 then 1003 else length ?ft)"
    using t pv transcript_preview_length [of ?ft] by simp
  then have "length t \<le> 1003" by (simp split: if_splits)
  with src eq len show ?thesis by blast
qed

theorem video_fullTranscript_length_witness:
  "answer_fullTranscript (video_summarize_handler (Some (js ''dQw4w9WgXcQ'')) None
       (\<lambda>videoId. Inr [\<lparr>seg_text = js ''Never gonna'', seg_offset = 0, seg_duration = 2\<rparr>,
                        \<lparr>seg_text = js ''give you up'', seg_offset = 2, seg_duration = 2\<rparr>])
       (\<lambda>q. Inr (Some (js ''A song.''))))
     = Some (js ''Never gonna give you up'')
   \<and> length (js ''Never gonna give you up'') \<le> 1003"
proof -
  have a: "answer_fullTranscript (video_summarize_handler (Some (js ''dQw4w9WgXcQ'')) None
       (\<lambda>videoId. Inr [\<lparr>seg_text = js ''Never gonna'', seg_offset = 0, seg_duration = 2\<rparr>,
                        \<lparr>seg_text = js ''give you up'', seg_offset = 2, seg_duration = 2\<rparr>])
       (\<lambda>q. Inr (Some (js ''A song.''))))
     = Some (js ''Never gonna give you up'')"
    by (simp add: video_summarize_handler_def Let_def extractVideoId_def patterns_def
        url_prefixes_def id_char_def match_direct_def id_word_def trim_def is_space_def
        transcript_preview_def substring0_def answer_fullTranscript_def res_json_def
        res_init_def js_def)
  show ?thesis
    using a video_fullTranscript_length [OF a] by auto
qed

text \<open>
  C9 as first stated fails for a transcript of 1001 characters: the field has
  1003 characters.
\<close>

theorem video_fullTranscript_counterexample:
  "answer_fullTranscript (video_summarize_handler (Some (js ''dQw4w9WgXcQ'')) None
       (\<lambda>videoId. Inr long_caption) (\<lambda>q. Inr (Some (js ''A summary.''))))
     = Some (replicate 1000 0x61 @ js ''...'')
   \<and> statusCode (video_summarize_handler (Some (js ''dQw4w9WgXcQ'')) None
       (\<lambda>videoId. Inr long_caption) (\<lambda>q. Inr (Some (js ''A summary.'')))) = 200
   \<and> length (replicate 1000 (0x61 :: code_unit) @ js ''...'') = 1003"
proof -
  have id: "extractVideoId (js ''dQw4w9WgXcQ'') = Inr (js ''dQw4w9WgXcQ'')"
    by (simp add: extractVideoId_def patterns_def url_prefixes_def js_def id_char_def
        match_direct_def id_word_def)
  have ft: "replicate 1001 (0x61 :: code_unit) = join (js '' '') (map seg_text long_caption)"
    by (simp add: long_caption_def)
  have tr: "trim (replicate 1001 (0x61 :: code_unit)) = replicate 1001 0x61"
    by (rule trim_no_space) (simp_all add: is_space_def)
  have pv: "transcript_preview (replicate 1001 (0x61 :: code_unit)) = replicate 1000 0x61 @ js ''...''"
    by (simp add: transcript_preview_def substring0_def)
  have ne: "js ''dQw4w9WgXcQ'' \<noteq> []" by (simp add: js_def)
  have "answer_fullTranscript (video_summarize_handler (Some (js ''dQw4w9WgXcQ'')) None
           (\<lambda>videoId. Inr long_caption) (\<lambda>q. Inr (Some (js ''A summary.''))))
         = Some (transcript_preview (replicate 1001 0x61))
       \<and> statusCode (video_summarize_handler (Some (js ''dQw4w9WgXcQ'')) None
           (\<lambda>videoId. Inr long_caption) (\<lambda>q. Inr (Some (js ''A summary.'')))) = 200"
    by (rule video_success [OF ne id _ ft]) (simp_all add: tr)
  then show ?thesis
    by (simp add: pv js_def)
qed

section \<open>The frame of a note update\<close>

lemma pow2_add: "pow2 (a + b) = pow2 a * pow2 b"
proof -
  have "pow2 p = 2 powi p" for p
    by (simp add: pow2_def power_int_def field_simps)
  then show ?thesis by (simp add: power_int_add)
qed

lemma pow2_pos: "0 < pow2 p"
  by (simp add: pow2_def)

lemma pow2_mono: "a \<le> b \<Longrightarrow> pow2 a \<le> pow2 b"
proof -
  assume "a \<le> b"
  then obtain k where k: "b = a + int k" by (metis zle_iff_zadd)
  have "1 \<le> pow2 (int k)" by (simp add: pow2_def)
  then have "pow2 a * 1 \<le> pow2 a * pow2 (int k)"
    using pow2_pos [of a] by (intro mult_left_mono) simp_all
  then show ?thesis by (simp add: k pow2_add)
qed

lemma ulp_exp_bounds: "s \<le> 971 \<Longrightarrow> s \<le> ulp_exp a s \<and> ulp_exp a s \<le> 971"
proof (induction a s rule: ulp_exp.induct)
  case (1 a p)
  show ?case
  proof (cases "971 \<le> p")
    case True
    then have "ulp_exp a p = 971" by (subst ulp_exp.simps) simp
    then show ?thesis using True "1.prems" by simp
  next
    case False
    show ?thesis
    proof (cases "a < pow2 (p + 53)")
      case True
      then show ?thesis using False by (simp add: ulp_exp.simps [of a p])
    next
      case nlt: False
      have "p + 1 \<le> 971" using False by simp
      then have "p + 1 \<le> ulp_exp a (p + 1) \<and> ulp_exp a (p + 1) \<le> 971"
        using "1.IH" [OF False nlt] by simp
      then show ?thesis using False nlt by (simp add: ulp_exp.simps [of a p])
    qed
  qed
qed

lemma ulp_exp_below:
  "s \<le> 971 \<Longrightarrow> s \<le> p' \<Longrightarrow> p' < ulp_exp a s \<Longrightarrow> pow2 (p' + 53) \<le> a"
proof (induction a s rule: ulp_exp.induct)
  case (1 a p)
  show ?case
  proof (cases "971 \<le> p")
    case True
    then have "ulp_exp a p = 971" by (subst ulp_exp.simps) simp
    then show ?thesis using True "1.prems" by simp
  next
    case False
    show ?thesis
    proof (cases "a < pow2 (p + 53)")
      case True
      then show ?thesis using False "1.prems" by (simp add: ulp_exp.simps [of a p])
    next
      case nlt: False
      have u: "ulp_exp a p = ulp_exp a (p + 1)"
        using False nlt by (simp add: ulp_exp.simps [of a p])
      show ?thesis
      proof (cases "p' = p")
        case True
        then show ?thesis using nlt by simp
      next
        case ne: False
        then have "p + 1 \<le> p'" using "1.prems"(2) by simp
        moreover have "p + 1 \<le> 971" using False by simp
        ultimately show ?thesis
          using "1.IH" [OF False nlt] "1.prems"(3) u by simp
      qed
    qed
  qed
qed

lemma ulp_exp_above: "ulp_exp a s < 971 \<Longrightarrow> a < pow2 (ulp_exp a s + 53)"
proof (induction a s rule: ulp_exp.induct)
  case (1 a p)
  show ?case
  proof (cases "971 \<le> p")
    case True
    then have "ulp_exp a p = 971" by (subst ulp_exp.simps) simp
    then show ?thesis using "1.prems" by simp
  next
    case False
    show ?thesis
    proof (cases "a < pow2 (p + 53)")
      case True
      then show ?thesis using False by (simp add: ulp_exp.simps [of a p])
    next
      case nlt: False
      have u: "ulp_exp a p = ulp_exp a (p + 1)"
        using False nlt by (simp add: ulp_exp.simps [of a p])
      then show ?thesis
        using "1.IH" [OF False nlt] "1.prems" by simp
    qed
  qed
qed

lemma ulp_exp_unique:
  assumes "s \<le> p" and "p < 971" and "a < pow2 (p + 53)" and "p = s \<or> pow2 (p + 52) \<le> a"
  shows "ulp_exp a s = p"
proof -
  let ?r = "ulp_exp a s"
  have s: "s \<le> 971" using assms(1,2) by simp
  have b: "s \<le> ?r" "?r \<le> 971" using ulp_exp_bounds [OF s, of a] by simp_all
  have "\<not> p < ?r"
  proof
    assume "p < ?r"
    then have "pow2 (p + 53) \<le> a" using ulp_exp_below [OF s assms(1)] by simp
    with assms(3) show False by simp
  qed
  moreover have "\<not> ?r < p"
  proof
    assume lt: "?r < p"
    then have "?r < 971" using assms(2) by simp
    then have "a < pow2 (?r + 53)" by (rule ulp_exp_above)
    moreover have "pow2 (?r + 53) \<le> pow2 (p + 52)" using lt by (intro pow2_mono) simp
    moreover have "pow2 (p + 52) \<le> a" using assms(4) lt b(1) by auto
    ultimately show False by simp
  qed
  ultimately show ?thesis by simp
qed

lemma round_half_even_int: "round_half_even (of_int k) = k"
  by (simp add: round_half_even_def)

lemma round_double_exact:
  assumes "q = of_int m * pow2 p" and "m \<noteq> 0" and "\<bar>m\<bar> < 2 ^ 53"
    and "- 1074 \<le> p" and "p < 971" and "p = - 1074 \<or> 2 ^ 52 \<le> \<bar>m\<bar>"
  shows "round_double q = Finite q"
proof -
  have q0: "q \<noteq> 0" using assms(1,2) pow2_pos [of p] by simp
  have absq: "\<bar>q\<bar> = of_int \<bar>m\<bar> * pow2 p"
    using pow2_pos [of p] by (simp add: assms(1) abs_mult)
  have c: "pow2 53 = 2 ^ 53" "pow2 52 = 2 ^ 52"
    by (simp_all add: pow2_def)
  have p53: "pow2 (p + 53) = 2 ^ 53 * pow2 p" "pow2 (p + 52) = 2 ^ 52 * pow2 p"
    unfolding pow2_add c by simp_all
  have "(of_int \<bar>m\<bar> :: rat) < 2 ^ 53" using assms(3) by (metis of_int_less_numeral_power_cancel_iff)
  then have lt: "\<bar>q\<bar> < pow2 (p + 53)"
    using pow2_pos [of p] by (simp add: absq p53)
  have ge: "p = - 1074 \<or> pow2 (p + 52) \<le> \<bar>q\<bar>"
  proof (cases "p = - 1074")
    case True
    then show ?thesis by simp
  next
    case False
    then have "2 ^ 52 \<le> \<bar>m\<bar>" using assms(6) by simp
    then have "(2 ^ 52 :: rat) \<le> of_int \<bar>m\<bar>" by (metis numeral_power_le_of_int_cancel_iff)
    then show ?thesis using pow2_pos [of p] by (simp add: absq p53)
  qed
  have u: "ulp_exp \<bar>q\<bar> (- 1074) = p"
    using assms(4,5) lt ge by (intro ulp_exp_unique) auto
  have "q / pow2 p = of_int m" using pow2_pos [of p] by (simp add: assms(1))
  then have r: "round_half_even (q / pow2 p) = m" by (simp add: round_half_even_int)
  show ?thesis
    using q0 u r assms(5) by (simp add: round_double_def Let_def assms(1))
qed


lemma round_double_int:
  assumes "1 \<le> k" and "k \<le> 2 ^ 53"
  shows "round_double (of_int k) = Finite (of_int k)"
proof -
  let ?q = "of_int k :: rat"
  let ?r = "ulp_exp \<bar>?q\<bar> (- 1074)"
  have q: "\<bar>?q\<bar> = ?q" "?q \<noteq> 0" using assms(1) by simp_all
  have b: "- 1074 \<le> ?r" "?r \<le> 971" using ulp_exp_bounds [of "- 1074" "\<bar>?q\<bar>"] by simp_all
  have le: "?q \<le> 2 ^ 53" using assms(2) by (metis of_int_le_numeral_power_cancel_iff)
  have c: "pow2 54 = 2 ^ 54" "pow2 53 = 2 ^ 53" by (simp_all add: pow2_def)
  have r1: "?r \<le> 1"
  proof (rule ccontr)
    assume "\<not> ?r \<le> 1"
    then have "pow2 (1 + 53) \<le> \<bar>?q\<bar>"
      by (intro ulp_exp_below [of "- 1074"]) simp_all
    then show False using le q c by simp
  qed
  have m: "round_half_even (?q / pow2 ?r) * 1 = round_half_even (?q / pow2 ?r)" by simp
  have val: "of_int (round_half_even (?q / pow2 ?r)) * pow2 ?r = ?q"
  proof (cases "?r \<le> 0")
    case True
    then have p: "pow2 ?r = 1 / 2 ^ nat (- ?r)"
      by (cases "?r = 0") (simp_all add: pow2_def)
    have "?q / pow2 ?r = of_int (k * 2 ^ nat (- ?r))" by (simp add: p)
    then have "round_half_even (?q / pow2 ?r) = k * 2 ^ nat (- ?r)"
      by (simp only: round_half_even_int)
    then show ?thesis by (simp add: p)
  next
    case False
    then have one: "?r = 1" using r1 by simp
    have "pow2 (0 + 53) \<le> \<bar>?q\<bar>"
      by (intro ulp_exp_below [of "- 1074"]) (simp_all add: one)
    then have "?q = 2 ^ 53" using le q c by simp
    then have k: "k = 2 ^ 53" by (metis of_int_eq_numeral_power_cancel_iff)
    have "?q / pow2 1 = of_int (2 ^ 52)" by (simp add: k pow2_def)
    then have "round_half_even (?q / pow2 1) = 2 ^ 52"
      by (simp only: round_half_even_int)
    then show ?thesis by (simp add: one) (simp add: k pow2_def)
  qed
  have "?r \<noteq> 971" using r1 by simp
  then show ?thesis
    using q(2) val by (simp add: round_double_def Let_def)
qed

lemma next_version_fresh:
  "v = None \<or> (\<exists>x. v = Some x \<and> \<not> truthy x) \<Longrightarrow> next_version v = PNum (Finite 2)"
  using round_double_int [of 2] by (auto simp: next_version_def)

lemma next_version_counter:
  assumes "1 \<le> n" and "n < 2 ^ 53"
  shows "next_version (Some (Prim (PNum (Finite (of_int n))))) = PNum (Finite (of_int (n + 1)))"
proof -
  have "of_int n \<noteq> (0 :: rat)" using assms(1) by simp
  moreover have "round_double (of_int (n + 1)) = Finite (of_int (n + 1))"
    using assms by (intro round_double_int) simp_all
  ultimately show ?thesis by (simp add: next_version_def)
qed

lemma next_version_string: "s \<noteq> [] \<Longrightarrow> next_version (Some (Prim (PStr s))) = PStr (s @ js ''1'')"
  by (simp add: next_version_def)

lemma next_version_stuck:
  "next_version (Some (Prim (PNum (Finite (2 ^ 53))))) = PNum (Finite (2 ^ 53))"
proof -
  have u: "ulp_exp \<bar>2 ^ 53 + 1\<bar> (- 1074) = 1"
    by (rule ulp_exp_unique) (simp_all add: pow2_def)
  have f: "\<lfloor>(9007199254740993 :: rat) / 2\<rfloor> = 4503599627370496"
    by (simp add: floor_eq_iff)
  have "round_half_even ((2 ^ 53 + 1) / pow2 1) = 2 ^ 52"
    by (simp add: round_half_even_def pow2_def Let_def f)
  then have "round_double (2 ^ 53 + 1) = Finite (2 ^ 53)"
    using u by (simp add: round_double_def Let_def) (simp add: pow2_def)
  then show ?thesis by (simp add: next_version_def)
qed

lemma next_version_falsy:
  "next_version (Some (Prim PNull)) = PNum (Finite 2)"
  "next_version (Some (Prim (PBool False))) = PNum (Finite 2)"
  "next_version (Some (Prim (PNum NaN))) = PNum (Finite 2)"
  "next_version (Some (Prim (PStr []))) = PNum (Finite 2)"
  using round_double_int [of 2] by (simp_all add: next_version_def)

lemma next_version_truthy:
  "next_version (Some (Prim (PBool True))) = PNum (Finite 2)"
  "next_version (Some (Prim (PNum PosInf))) = PNum PosInf"
  "next_version (Some (Prim (PNum NegInf))) = PNum NegInf"
  "next_version (Some (Obj p)) = prim_plus_one p"
  "next_version (Some (Obj (PStr []))) = PStr (js ''1'')"
  "next_version (Some (Obj PNull)) = PNum (Finite 1)"
  using round_double_int [of 2] round_double_int [of 1] by (simp_all add: next_version_def)

lemma next_version_half:
  "next_version (Some (Prim (PNum (Finite (1 / 2))))) = PNum (Finite (3 / 2))"
proof -
  have "round_double (3 / 2) = Finite (3 / 2)"
    by (rule round_double_exact [of _ "3 * 2 ^ 51" "- 52"]) (simp_all add: pow2_def)
  then show ?thesis by (simp add: next_version_def)
qed

lemma next_version_minus_one:
  "next_version (Some (Prim (PNum (Finite (- 1))))) = PNum (Finite 0)"
  by (simp add: next_version_def round_double_def)

lemma next_version_tie_up:
  "next_version (Some (Prim (PNum (Finite (2 ^ 53 + 2))))) = PNum (Finite (2 ^ 53 + 4))"
proof -
  have u: "ulp_exp \<bar>2 ^ 53 + 2 + 1\<bar> (- 1074) = 1"
    by (rule ulp_exp_unique) (simp_all add: pow2_def)
  have f: "\<lfloor>(9007199254740995 :: rat) / 2\<rfloor> = 4503599627370497"
    by (simp add: floor_eq_iff)
  have "round_half_even ((2 ^ 53 + 2 + 1) / pow2 1) = 2 ^ 52 + 2"
    by (simp add: round_half_even_def pow2_def Let_def f)
  then have "round_double (2 ^ 53 + 2 + 1) = Finite (2 ^ 53 + 4)"
    using u by (simp add: round_double_def Let_def) (simp add: pow2_def)
  then show ?thesis by (simp add: next_version_def)
qed

lemma update_note_owner:
  assumes "store noteId = Some d" and "nd_userId d = Some userId"
  shows "update_note userId noteId b now store =
           (store(noteId \<mapsto> doc_update (make_update_data d b now) d),
            \<lparr>statusCode = 200, headersSent = True, written = [],
             jsonBody = Some (NoteBody noteId (doc_update (make_update_data d b now) d)),
             ended = True\<rparr>)"
  using assms by (simp add: update_note_def Let_def res_json_def res_init_def)

text \<open>
  C10 (as amended). When the owner updates an existing note, each of \<open>title\<close>,
  \<open>content\<close>, \<open>tags\<close>, \<open>links\<close> and \<open>category\<close> that the body omits keeps its stored
  value and each one given is stored (a \<open>tags\<close> or \<open>links\<close> that is no array as the
  empty array); \<open>updatedAt\<close> becomes the time of the request; the owner, every
  other stored field and every other note stay as they were. The version becomes
  the stored version plus 1 when the stored version is a whole number from 1 to
  \<open>2 ^ 53 - 1\<close>; it becomes 2 when the stored version is missing or falsy (0, NaN,
  \<open>null\<close>, \<open>false\<close>, the empty string); a stored version that is a non-empty
  string gets the character \<open>1\<close> appended.
\<close>

theorem update_note_frame:
  assumes "store noteId = Some d" and "nd_userId d = Some userId"
  shows "\<exists>d'. update_note userId noteId b now store =
           (store(noteId \<mapsto> d'),
            \<lparr>statusCode = 200, headersSent = True, written = [],
             jsonBody = Some (NoteBody noteId d'), ended = True\<rparr>)
     \<and> nd_title d' = (case ub_title b of None \<Rightarrow> nd_title d | Some v \<Rightarrow> Some v)
     \<and> nd_content d' = (case ub_content b of None \<Rightarrow> nd_content d | Some v \<Rightarrow> Some v)
     \<and> nd_tags d' = (case ub_tags b of None \<Rightarrow> nd_tags d | Some v \<Rightarrow> Some (array_or_empty v))
     \<and> nd_links d' = (case ub_links b of None \<Rightarrow> nd_links d | Some v \<Rightarrow> Some (array_or_empty v))
     \<and> nd_category d' = (case ub_category b of None \<Rightarrow> nd_category d | Some v \<Rightarrow> Some v)
     \<and> nd_updatedAt d' = Some now
     \<and> (nd_version d = None \<or> (\<exists>x. nd_version d = Some x \<and> \<not> truthy x)
          \<longrightarrow> nd_version d' = Some (Prim (PNum (Finite 2))))
     \<and> (\<forall>n. nd_version d = Some (Prim (PNum (Finite (of_int n)))) \<and> 1 \<le> n \<and> n < 2 ^ 53
          \<longrightarrow> nd_version d' = Some (Prim (PNum (Finite (of_int (n + 1))))))
     \<and> (\<forall>s. nd_version d = Some (Prim (PStr s)) \<and> s \<noteq> []
          \<longrightarrow> nd_version d' = Some (Prim (PStr (s @ js ''1''))))
     \<and> nd_userId d' = nd_userId d
     \<and> nd_other d' = nd_other d"
proof -
  let ?d = "doc_update (make_update_data d b now) d"
  have v: "nd_version ?d = Some (Prim (next_version (nd_version d)))"
    by (simp add: doc_update_def make_update_data_def)
  have fresh: "nd_version d = None \<or> (\<exists>x. nd_version d = Some x \<and> \<not> truthy x)
          \<longrightarrow> nd_version ?d = Some (Prim (PNum (Finite 2)))"
    using next_version_fresh [of "nd_version d"] v by auto
  have counter: "\<forall>n. nd_version d = Some (Prim (PNum (Finite (of_int n)))) \<and> 1 \<le> n \<and> n < 2 ^ 53
          \<longrightarrow> nd_version ?d = Some (Prim (PNum (Finite (of_int (n + 1)))))"
    using next_version_counter v by auto
  have str: "\<forall>s. nd_version d = Some (Prim (PStr s)) \<and> s \<noteq> []
          \<longrightarrow> nd_version ?d = Some (Prim (PStr (s @ js ''1'')))"
    using next_version_string v by auto
  have rest: "nd_title ?d = (case ub_title b of None \<Rightarrow> nd_title d | Some v \<Rightarrow> Some v)"
    "nd_content ?d = (case ub_content b of None \<Rightarrow> nd_content d | Some v \<Rightarrow> Some v)"
    "nd_tags ?d = (case ub_tags b of None \<Rightarrow> nd_tags d | Some v \<Rightarrow> Some (array_or_empty v))"
    "nd_links ?d = (case ub_links b of None \<Rightarrow> nd_links d | Some v \<Rightarrow> Some (array_or_empty v))"
    "nd_category ?d = (case ub_category b of None \<Rightarrow> nd_category d | Some v \<Rightarrow> Some v)"
    "nd_updatedAt ?d = Some now" "nd_userId ?d = nd_userId d" "nd_other ?d = nd_other d"
    by (simp_all add: doc_update_def make_update_data_def set_field_def split: option.splits)
  show ?thesis
    using update_note_owner [of store noteId d userId b now, OF assms] fresh counter str rest
    by (intro exI [of _ ?d]) blast
qed

theorem update_note_frame_witness:
  "update_note (js ''u1'') (js ''n1'') title_only (js ''2024-06-01T09:00:00.000Z'')
       [js ''n1'' \<mapsto> sample_note (Some (Prim (PNum (Finite 3))))] =
     ([js ''n1'' \<mapsto> (sample_note (Some (Prim (PNum (Finite 4)))))
          \<lparr>nd_updatedAt := Some (js ''2024-06-01T09:00:00.000Z''),
           nd_title := Some (JStr (js ''Shopping''))\<rparr>],
      \<lparr>statusCode = 200, headersSent = True, written = [],
       jsonBody = Some (NoteBody (js ''n1'') ((sample_note (Some (Prim (PNum (Finite 4)))))
          \<lparr>nd_updatedAt := Some (js ''2024-06-01T09:00:00.000Z''),
           nd_title := Some (JStr (js ''Shopping''))\<rparr>)),
       ended = True\<rparr>)
   \<and> update_note (js ''u1'') (js ''n1'') title_only (js ''2024-06-01T09:00:00.000Z'')
       [js ''n1'' \<mapsto> sample_note None] =
     ([js ''n1'' \<mapsto> (sample_note (Some (Prim (PNum (Finite 2)))))
          \<lparr>nd_updatedAt := Some (js ''2024-06-01T09:00:00.000Z''),
           nd_title := Some (JStr (js ''Shopping''))\<rparr>],
      \<lparr>statusCode = 200, headersSent = True, written = [],
       jsonBody = Some (NoteBody (js ''n1'') ((sample_note (Some (Prim (PNum (Finite 2)))))
          \<lparr>nd_updatedAt := Some (js ''2024-06-01T09:00:00.000Z''),
           nd_title := Some (JStr (js ''Shopping''))\<rparr>)),
       ended = True\<rparr>)"
proof -
  have w: "update_note (js ''u1'') (js ''n1'') title_only (js ''2024-06-01T09:00:00.000Z'')
       [js ''n1'' \<mapsto> sample_note old] =
     ([js ''n1'' \<mapsto> (sample_note (Some new))
          \<lparr>nd_updatedAt := Some (js ''2024-06-01T09:00:00.000Z''),
           nd_title := Some (JStr (js ''Shopping''))\<rparr>],
      \<lparr>statusCode = 200, headersSent = True, written = [],
       jsonBody = Some (NoteBody (js ''n1'') ((sample_note (Some new))
          \<lparr>nd_updatedAt := Some (js ''2024-06-01T09:00:00.000Z''),
           nd_title := Some (JStr (js ''Shopping''))\<rparr>)),
       ended = True\<rparr>)"
    if h: "\<And>d' :: note_doc. (nd_version (sample_note old) = None
                    \<or> (\<exists>x. nd_version (sample_note old) = Some x \<and> \<not> truthy x)
                  \<longrightarrow> nd_version d' = Some (Prim (PNum (Finite 2))))
              \<Longrightarrow> (\<forall>n. nd_version (sample_note old) = Some (Prim (PNum (Finite (of_int n))))
                      \<and> 1 \<le> n \<and> n < 2 ^ 53
                  \<longrightarrow> nd_version d' = Some (Prim (PNum (Finite (of_int (n + 1))))))
              \<Longrightarrow> nd_version d' = Some new"
    for old new
  proof -
    let ?old = "sample_note old"
    have a: "[js ''n1'' \<mapsto> ?old] (js ''n1'') = Some ?old"
      by simp
    have b: "nd_userId ?old = Some (js ''u1'')"
      by (simp add: sample_note_def)
    from update_note_frame [of "[js ''n1'' \<mapsto> ?old]" "js ''n1''" ?old "js ''u1''" title_only
        "js ''2024-06-01T09:00:00.000Z''", OF a b]
    obtain d' where
      u: "update_note (js ''u1'') (js ''n1'') title_only (js ''2024-06-01T09:00:00.000Z'')
            [js ''n1'' \<mapsto> ?old] =
          ([js ''n1'' \<mapsto> ?old](js ''n1'' \<mapsto> d'),
           \<lparr>statusCode = 200, headersSent = True, written = [],
            jsonBody = Some (NoteBody (js ''n1'') d'), ended = True\<rparr>)"
      and f: "nd_title d' = (case ub_title title_only of None \<Rightarrow> nd_title ?old | Some v \<Rightarrow> Some v)"
        "nd_content d' = (case ub_content title_only of None \<Rightarrow> nd_content ?old | Some v \<Rightarrow> Some v)"
        "nd_tags d' = (case ub_tags title_only of None \<Rightarrow> nd_tags ?old | Some v \<Rightarrow> Some (array_or_empty v))"
        "nd_links d' = (case ub_links title_only of None \<Rightarrow> nd_links ?old | Some v \<Rightarrow> Some (array_or_empty v))"
        "nd_category d' = (case ub_category title_only of None \<Rightarrow> nd_category ?old | Some v \<Rightarrow> Some v)"
        "nd_updatedAt d' = Some (js ''2024-06-01T09:00:00.000Z'')"
        "nd_userId d' = nd_userId ?old"
        "nd_other d' = nd_other ?old"
      and z: "nd_version ?old = None \<or> (\<exists>x. nd_version ?old = Some x \<and> \<not> truthy x)
            \<longrightarrow> nd_version d' = Some (Prim (PNum (Finite 2)))"
      and c: "\<forall>n. nd_version ?old = Some (Prim (PNum (Finite (of_int n)))) \<and> 1 \<le> n \<and> n < 2 ^ 53
            \<longrightarrow> nd_version d' = Some (Prim (PNum (Finite (of_int (n + 1)))))"
      by blast
    have "nd_version d' = Some new" by (rule h [OF z c])
    then have "d' = (sample_note (Some new))
            \<lparr>nd_updatedAt := Some (js ''2024-06-01T09:00:00.000Z''),
             nd_title := Some (JStr (js ''Shopping''))\<rparr>"
      using f by (cases d') (simp add: sample_note_def title_only_def)
    then show ?thesis using u by simp
  qed
  have three: "nd_version (sample_note (Some (Prim (PNum (Finite 3)))))
               = Some (Prim (PNum (Finite (of_int 3))))"
    by (simp add: sample_note_def)
  have none: "nd_version (sample_note None) = None"
    by (simp add: sample_note_def)
  have w1: "nd_version d' = Some (Prim (PNum (Finite 4)))"
    if "\<forall>n. nd_version (sample_note (Some (Prim (PNum (Finite 3)))))
              = Some (Prim (PNum (Finite (of_int n)))) \<and> 1 \<le> n \<and> n < 2 ^ 53
          \<longrightarrow> nd_version d' = Some (Prim (PNum (Finite (of_int (n + 1)))))" for d' :: note_doc
  proof -
    have "nd_version d' = Some (Prim (PNum (Finite (of_int (3 + 1)))))"
      using three by (intro that [rule_format]) simp
    then show ?thesis by simp
  qed
  show ?thesis
    using w [of "Some (Prim (PNum (Finite 3)))" "Prim (PNum (Finite 4))"]
      w [of None "Prim (PNum (Finite 2))"] w1 none
    by simp
qed

text \<open>
  C10 as first stated fails: a stored version 0 gives 2, not 1; the stored
  string \<open>3\<close> gives the string \<open>31\<close>; the stored number \<open>2 ^ 53\<close> stays as it is,
  since \<open>2 ^ 53 + 1\<close> is no double and the sum is rounded to the even neighbour.
\<close>

theorem update_note_version_counterexample:
  "map_option nd_version
     (fst (update_note (js ''u1'') (js ''n1'') title_only (js ''2024-06-01T09:00:00.000Z'')
        [js ''n1'' \<mapsto> sample_note (Some (Prim (PNum (Finite 0))))]) (js ''n1''))
     = Some (Some (Prim (PNum (Finite 2))))
   \<and> map_option nd_version
     (fst (update_note (js ''u1'') (js ''n1'') title_only (js ''2024-06-01T09:00:00.000Z'')
        [js ''n1'' \<mapsto> sample_note (Some (Prim (PStr (js ''3''))))]) (js ''n1''))
     = Some (Some (Prim (PStr (js ''31''))))
   \<and> map_option nd_version
     (fst (update_note (js ''u1'') (js ''n1'') title_only (js ''2024-06-01T09:00:00.000Z'')
        [js ''n1'' \<mapsto> sample_note (Some (Prim (PNum (Finite (2 ^ 53)))))]) (js ''n1''))
     = Some (Some (Prim (PNum (Finite (2 ^ 53)))))"
proof -
  have o: "nd_userId (sample_note v) = Some (js ''u1'')" "nd_version (sample_note v) = v" for v
    by (simp_all add: sample_note_def)
  have s: "js ''3'' \<noteq> []" "js ''3'' @ js ''1'' = js ''31''" by (simp_all add: js_def)
  have g: "map_option nd_version
     (fst (update_note (js ''u1'') (js ''n1'') title_only (js ''2024-06-01T09:00:00.000Z'')
        [js ''n1'' \<mapsto> sample_note v]) (js ''n1'')) = Some (Some (Prim (next_version v)))" for v
    using update_note_owner [of "[js ''n1'' \<mapsto> sample_note v]" "js ''n1''" "sample_note v"
        "js ''u1''" title_only "js ''2024-06-01T09:00:00.000Z''"] o [of v]
    by (simp add: doc_update_def make_update_data_def)
  have n: "next_version (Some (Prim (PNum (Finite 0)))) = PNum (Finite 2)"
    "next_version (Some (Prim (PStr (js ''3'')))) = PStr (js ''31'')"
    using next_version_fresh [of "Some (Prim (PNum (Finite 0)))"] next_version_string [OF s(1)] s(2)
    by simp_all
  show ?thesis
    unfolding g n next_version_stuck by simp
qed

end
